(* ===== verification/Prelude.thy ===== *)
theory Prelude
  imports Complex_Main "HOL-Library.Multiset" "HOL-Library.Product_Lexorder"
begin

text \<open>
  Shared vocabulary of the development: the named collections of evaluation
  equations, the association-list view of JavaScript objects, and the generic
  facts on lists that the sorting and pipeline theories share (above all, that a
  stable sorted permutation is unique).
\<close>

named_theorems js_eval "equations that evaluate the JavaScript runtime model on literals"
named_theorems sort_facts "facts on sorted permutations shared by the sort engines"

subsection \<open>Objects as association lists\<close>

text \<open>
  A JavaScript object with string keys is an association list: property order is
  insertion order, reading a missing key yields a default, and assigning an
  existing key keeps its position (\<open>AList\<close>-style update, written out here).
\<close>

fun alist_get :: "('k \<times> 'v) list \<Rightarrow> 'k \<Rightarrow> 'v \<Rightarrow> 'v" where
  "alist_get [] k d = d"
| "alist_get ((k', v) # ps) k d = (if k' = k then v else alist_get ps k d)"

fun alist_set :: "('k \<times> 'v) list \<Rightarrow> 'k \<Rightarrow> 'v \<Rightarrow> ('k \<times> 'v) list" where
  "alist_set [] k v = [(k, v)]"
| "alist_set ((k', v') # ps) k v =
     (if k' = k then (k, v) # ps else (k', v') # alist_set ps k v)"

subsection \<open>Stable sorted permutations\<close>

text \<open>
  \<open>stable_sorted_perm k xs ys\<close>: \<open>ys\<close> is a permutation of \<open>xs\<close>, ordered by the
  key \<open>k\<close>, and elements with equal keys keep their relative order. The last
  conjunct quantifies over the keys that occur, so the predicate is executable.
\<close>

definition stable_sorted_perm :: "('a \<Rightarrow> 'k::linorder) \<Rightarrow> 'a list \<Rightarrow> 'a list \<Rightarrow> bool" where
  "stable_sorted_perm k xs ys \<longleftrightarrow>
     mset ys = mset xs \<and> sorted (map k ys) \<and>
     (\<forall>x\<in>set xs. filter (\<lambda>y. k y = k x) ys = filter (\<lambda>y. k y = k x) xs)"

subsection \<open>Facts on objects\<close>

lemma alist_get_set [simp]:
  "alist_get (alist_set ps k v) k' d = (if k' = k then v else alist_get ps k' d)"
  by (induction ps k v rule: alist_set.induct) auto

lemma map_fst_alist_set:
  "k \<in> set (map fst ps) \<Longrightarrow> map fst (alist_set ps k v) = map fst ps"
  by (induction ps k v rule: alist_set.induct) auto

lemma alist_set_idem [simp]:
  "alist_set (alist_set ps k v) k w = alist_set ps k w"
  by (induction ps k v rule: alist_set.induct) auto

subsection \<open>Uniqueness of stable sorted permutations\<close>

lemma sorted_key_head_min:
  assumes "sorted (map k (y # ys))" "z \<in> set (y # ys)"
  shows "k y \<le> k z"
  using assms by auto

lemma stable_sort_unique [sort_facts]:
  assumes "mset ys = mset zs" "sorted (map k ys)" "sorted (map k zs)"
    and "\<forall>x\<in>set ys. filter (\<lambda>y. k y = k x) ys = filter (\<lambda>y. k y = k x) zs"
  shows "ys = zs"
  using assms
proof (induction ys arbitrary: zs)
  case Nil
  then show ?case by simp
next
  case (Cons y ys)
  obtain z zs' where zs: "zs = z # zs'"
    using Cons.prems(1) by (cases zs) auto
  have "z \<in> set (y # ys)" "y \<in> set (z # zs')"
    using Cons.prems(1) zs by (metis list.set_intros(1) set_mset_mset)+
  then have kyz: "k y = k z"
    using sorted_key_head_min [OF Cons.prems(2)] sorted_key_head_min [of k z zs']
      Cons.prems(3) zs by (meson order_antisym)
  have f: "filter (\<lambda>u. k u = k y) (y # ys) = filter (\<lambda>u. k u = k y) (z # zs')"
    using Cons.prems(4) zs by simp
  then have yz: "y = z" using kyz by simp
  have m: "mset ys = mset zs'" using Cons.prems(1) zs yz by simp
  have "\<forall>x\<in>set ys. filter (\<lambda>u. k u = k x) ys = filter (\<lambda>u. k u = k x) zs'"
  proof
    fix x assume "x \<in> set ys"
    then have "filter (\<lambda>u. k u = k x) (y # ys) = filter (\<lambda>u. k u = k x) (z # zs')"
      using Cons.prems(4) zs by simp
    then show "filter (\<lambda>u. k u = k x) ys = filter (\<lambda>u. k u = k x) zs'"
      using yz by (simp split: if_splits)
  qed
  with m Cons.prems(2,3) zs have "ys = zs'" by (intro Cons.IH) auto
  with yz zs show ?case by simp
qed

lemma stable_sorted_perm_unique [sort_facts]:
  assumes "stable_sorted_perm k xs ys" "stable_sorted_perm k xs zs"
  shows "ys = zs"
proof (rule stable_sort_unique)
  show "mset ys = mset zs" "sorted (map k ys)" "sorted (map k zs)"
    using assms by (auto simp: stable_sorted_perm_def)
  have "set ys = set xs" using assms(1) unfolding stable_sorted_perm_def
    by (metis set_mset_mset)
  then show "\<forall>x\<in>set ys. filter (\<lambda>y. k y = k x) ys = filter (\<lambda>y. k y = k x) zs"
    using assms by (auto simp: stable_sorted_perm_def)
qed

lemma stable_sorted_perm_sort_key [sort_facts]:
  "stable_sorted_perm k xs (sort_key k xs)"
  by (simp add: stable_sorted_perm_def sort_key_stable)

lemma stable_sorted_perm_filter [sort_facts]:
  assumes "stable_sorted_perm k xs ys"
  shows "filter (\<lambda>z. k z = v) ys = filter (\<lambda>z. k z = v) xs"
proof (cases "\<exists>x\<in>set xs. k x = v")
  case True
  then show ?thesis using assms by (auto simp: stable_sorted_perm_def)
next
  case False
  moreover have "set ys = set xs"
    using assms unfolding stable_sorted_perm_def by (metis set_mset_mset)
  ultimately show ?thesis by (auto simp: filter_empty_conv)
qed

text \<open>Facts a stable sorted permutation inherits from \<open>sort_key\<close>.\<close>

lemma stable_sorted_perm_iff_sort_key [sort_facts]:
  "stable_sorted_perm k xs ys \<longleftrightarrow> ys = sort_key k xs"
  using stable_sorted_perm_unique stable_sorted_perm_sort_key by metis

subsection \<open>Prefixes of sorted lists\<close>

lemma sorted_take_drop_le [sort_facts]:
  assumes "sorted (map k ys)" "a \<in> set (take n ys)" "b \<in> set (drop n ys)"
  shows "k a \<le> k b"
proof -
  have "sorted (map k (take n ys) @ map k (drop n ys))"
    using assms(1) by (simp flip: map_append)
  then show ?thesis using assms(2,3) by (auto simp: sorted_append)
qed

subsection \<open>Removing a key\<close>

lemma alist_get_filter_key:
  "alist_get (filter (\<lambda>p. fst p \<noteq> a) ps) b d = (if b = a then d else alist_get ps b d)"
  by (induction ps) auto

lemma alist_set_new:
  "k \<notin> set (map fst ps) \<Longrightarrow> alist_set ps k v = ps @ [(k, v)]"
  by (induction ps k v rule: alist_set.induct) auto

lemma alist_get_map_const:
  "k \<in> set ks \<Longrightarrow> alist_get (map (\<lambda>k. (k, v)) ks) k d = v"
  by (induction ks) auto

lemma map_alist_get_zip:
  "distinct ks \<Longrightarrow> length vs = length ks \<Longrightarrow> map (\<lambda>k. alist_get (zip ks vs) k d) ks = vs"
proof (induction ks arbitrary: vs)
  case (Cons k ks)
  then obtain v vs' where vs: "vs = v # vs'" by (cases vs) auto
  have "map (\<lambda>x. if k = x then v else alist_get (zip ks vs') x d) ks =
        map (\<lambda>x. alist_get (zip ks vs') x d) ks"
    using Cons.prems(1) by (intro map_cong) auto
  with Cons vs show ?case by simp
qed simp

lemma alist_set_same:
  "alist_get ps k d = v \<Longrightarrow> v \<noteq> d \<Longrightarrow> alist_set ps k v = ps"
  by (induction ps k v rule: alist_set.induct) (auto split: if_splits)

end
