(* ===== verification/Js_Value.thy ===== *)
theory Js_Value
  imports Prelude
begin

text \<open>
  The JavaScript runtime values that \<open>src/script.js\<close> manipulates. A Number is a
  finite value (an exact rational), one of the two infinities, or NaN; rounding to
  the nearest double is not modelled, except that a magnitude at or beyond the
  overflow threshold \<open>2^1024 - 2^970\<close> becomes an infinity, as IEEE round-to-nearest
  makes it. Signed zero is not modelled. The values stored in the properties of the
  CSV row objects are \<open>undefined\<close>, strings, or numbers.
  This theory holds ECMAScript's \<open>StringToNumber\<close> (what the unary \<open>+\<close> of
  \<open>d.Count = +d.Count\<close> does to a string), the Number arithmetic the scales use,
  the \<open><\<close> comparison \<open>d3.max\<close> uses, and \<open>Number::toString\<close> on integers.
\<close>

datatype jsnum = JNum rat | JPosInf | JNegInf | JNaN

datatype jsval = JUndefined | JStr string | JNumber jsnum

subsection \<open>Rounding and arithmetic (ECMAScript Number::add, subtract, multiply, divide)\<close>

definition max_double_bound :: rat where
  "max_double_bound = 2 ^ 1024 - 2 ^ 970"

definition js_round :: "rat \<Rightarrow> jsnum" where
  "js_round q =
     (if max_double_bound \<le> q then JPosInf
      else if q \<le> - max_double_bound then JNegInf else JNum q)"

fun js_neg :: "jsnum \<Rightarrow> jsnum" where
  "js_neg (JNum a) = JNum (- a)"
| "js_neg JPosInf = JNegInf"
| "js_neg JNegInf = JPosInf"
| "js_neg JNaN = JNaN"

fun js_add :: "jsnum \<Rightarrow> jsnum \<Rightarrow> jsnum" where
  "js_add JNaN y = JNaN"
| "js_add x JNaN = JNaN"
| "js_add JPosInf JNegInf = JNaN"
| "js_add JNegInf JPosInf = JNaN"
| "js_add JPosInf y = JPosInf"
| "js_add x JPosInf = JPosInf"
| "js_add JNegInf y = JNegInf"
| "js_add x JNegInf = JNegInf"
| "js_add (JNum a) (JNum b) = js_round (a + b)"

text \<open>Number::subtract(x, y) is Number::add(x, Number::unaryMinus(y)).\<close>

definition js_sub :: "jsnum \<Rightarrow> jsnum \<Rightarrow> jsnum" where
  "js_sub x y = js_add x (js_neg y)"

definition js_inf :: "bool \<Rightarrow> jsnum" where
  "js_inf pos = (if pos then JPosInf else JNegInf)"

fun js_mul :: "jsnum \<Rightarrow> jsnum \<Rightarrow> jsnum" where
  "js_mul JNaN y = JNaN"
| "js_mul x JNaN = JNaN"
| "js_mul (JNum a) (JNum b) = js_round (a * b)"
| "js_mul (JNum a) y = (if a = 0 then JNaN else js_inf ((0 < a) = (y = JPosInf)))"
| "js_mul x (JNum b) = (if b = 0 then JNaN else js_inf ((0 < b) = (x = JPosInf)))"
| "js_mul x y = js_inf (x = y)"

fun js_div :: "jsnum \<Rightarrow> jsnum \<Rightarrow> jsnum" where
  "js_div JNaN y = JNaN"
| "js_div x JNaN = JNaN"
| "js_div (JNum a) (JNum b) =
     (if b = 0 then (if a = 0 then JNaN else js_inf (0 < a)) else js_round (a / b))"
| "js_div (JNum a) y = JNum 0"
| "js_div x (JNum b) = js_inf ((x = JPosInf) = (0 \<le> b))"
| "js_div x y = JNaN"

fun js_num_less :: "jsnum \<Rightarrow> jsnum \<Rightarrow> bool" where
  "js_num_less JNaN y = False"
| "js_num_less x JNaN = False"
| "js_num_less (JNum a) (JNum b) = (a < b)"
| "js_num_less JNegInf y = (y \<noteq> JNegInf)"
| "js_num_less x JPosInf = (x \<noteq> JPosInf)"
| "js_num_less x y = False"

subsection \<open>StringToNumber\<close>

text \<open>
  StrWhiteSpaceChar, restricted to the single-byte characters (TAB, LF, VT, FF, CR,
  SPACE); the multi-byte Unicode spaces are not modelled.
\<close>

definition is_str_ws :: "char \<Rightarrow> bool" where
  "is_str_ws c \<longleftrightarrow> of_char c \<in> {9, 10, 11, 12, 13, 32 :: nat}"

definition js_trim :: "string \<Rightarrow> string" where
  "js_trim s = rev (dropWhile is_str_ws (rev (dropWhile is_str_ws s)))"

definition digit_value :: "char \<Rightarrow> nat option" where
  "digit_value c =
     (let n = of_char c :: nat in
      if 48 \<le> n \<and> n \<le> 57 then Some (n - 48)
      else if 97 \<le> n \<and> n \<le> 102 then Some (n - 87)
      else if 65 \<le> n \<and> n \<le> 70 then Some (n - 55) else None)"

definition is_digit_of :: "nat \<Rightarrow> char \<Rightarrow> bool" where
  "is_digit_of r c \<longleftrightarrow> (case digit_value c of Some d \<Rightarrow> d < r | None \<Rightarrow> False)"

definition digits_value :: "nat \<Rightarrow> string \<Rightarrow> nat" where
  "digits_value r ds =
     foldl (\<lambda>acc c. acc * r + (case digit_value c of Some d \<Rightarrow> d | None \<Rightarrow> 0)) 0 ds"

definition digits_int :: "string \<Rightarrow> int option" where
  "digits_int ds =
     (if ds \<noteq> [] \<and> list_all (is_digit_of 10) ds then Some (int (digits_value 10 ds)) else None)"

text \<open>SignedInteger of an ExponentPart, and the ExponentPart itself (absent means 0).\<close>

definition signed_integer :: "string \<Rightarrow> int option" where
  "signed_integer s =
     (case s of
        [] \<Rightarrow> None
      | c # ds \<Rightarrow>
          if c = CHR ''+'' then digits_int ds
          else if c = CHR ''-'' then map_option uminus (digits_int ds)
          else digits_int (c # ds))"

definition exponent_part :: "string \<Rightarrow> int option" where
  "exponent_part s =
     (case s of
        [] \<Rightarrow> Some 0
      | c # r \<Rightarrow> if c = CHR ''e'' \<or> c = CHR ''E'' then signed_integer r else None)"

definition pow10 :: "int \<Rightarrow> rat" where
  "pow10 e = (if 0 \<le> e then 10 ^ nat e else 1 / 10 ^ nat (- e))"

text \<open>The mathematical value of \<open>ip . fp e exp\<close>.\<close>

definition decimal_mv :: "string \<Rightarrow> string \<Rightarrow> int \<Rightarrow> rat" where
  "decimal_mv ip fp e = of_nat (digits_value 10 (ip @ fp)) / 10 ^ length fp * pow10 e"

definition str_unsigned_decimal :: "string \<Rightarrow> jsnum option" where
  "str_unsigned_decimal t =
     (if t = ''Infinity'' then Some JPosInf
      else
        let ip = takeWhile (is_digit_of 10) t; r1 = dropWhile (is_digit_of 10) t in
        if r1 \<noteq> [] \<and> hd r1 = CHR ''.'' then
          let fp = takeWhile (is_digit_of 10) (tl r1); r2 = dropWhile (is_digit_of 10) (tl r1) in
          if ip = [] \<and> fp = [] then None
          else map_option (\<lambda>e. js_round (decimal_mv ip fp e)) (exponent_part r2)
        else if ip = [] then None
        else map_option (\<lambda>e. js_round (decimal_mv ip [] e)) (exponent_part r1))"

definition str_decimal :: "string \<Rightarrow> jsnum option" where
  "str_decimal t =
     (case t of
        [] \<Rightarrow> None
      | c # r \<Rightarrow>
          if c = CHR ''+'' then str_unsigned_decimal r
          else if c = CHR ''-'' then map_option js_neg (str_unsigned_decimal r)
          else str_unsigned_decimal t)"

definition radix_of :: "char \<Rightarrow> nat option" where
  "radix_of c =
     (if c = CHR ''b'' \<or> c = CHR ''B'' then Some 2
      else if c = CHR ''o'' \<or> c = CHR ''O'' then Some 8
      else if c = CHR ''x'' \<or> c = CHR ''X'' then Some 16 else None)"

definition non_decimal :: "string \<Rightarrow> jsnum option" where
  "non_decimal t =
     (case t of
        z # c # ds \<Rightarrow>
          if z = CHR ''0'' then
            (case radix_of c of
               Some r \<Rightarrow>
                 if ds \<noteq> [] \<and> list_all (is_digit_of r) ds
                 then Some (js_round (of_nat (digits_value r ds))) else None
             | None \<Rightarrow> None)
          else None
      | _ \<Rightarrow> None)"

definition string_to_number :: "string \<Rightarrow> jsnum" where
  "string_to_number s =
     (let t = js_trim s in
      if t = [] then JNum 0
      else case non_decimal t of
             Some n \<Rightarrow> n
           | None \<Rightarrow> (case str_decimal t of Some n \<Rightarrow> n | None \<Rightarrow> JNaN))"

subsection \<open>ToNumber, relational comparison, ToString\<close>

fun to_number :: "jsval \<Rightarrow> jsnum" where
  "to_number JUndefined = JNaN"
| "to_number (JStr s) = string_to_number s"
| "to_number (JNumber n) = n"

fun str_less :: "string \<Rightarrow> string \<Rightarrow> bool" where
  "str_less [] (d # ds) = True"
| "str_less (c # cs) (d # ds) =
     (of_char c < (of_char d :: nat) \<or> (c = d \<and> str_less cs ds))"
| "str_less _ _ = False"

text \<open>IsLessThan for the values that occur: two strings compare by code units, any
  other pair numerically after ToNumber.\<close>

fun js_less :: "jsval \<Rightarrow> jsval \<Rightarrow> bool" where
  "js_less (JStr a) (JStr b) = str_less a b"
| "js_less x y = js_num_less (to_number x) (to_number y)"

fun nat_digits :: "nat \<Rightarrow> string" where
  "nat_digits n =
     (if n < 10 then [char_of (48 + n)] else nat_digits (n div 10) @ [char_of (48 + n mod 10)])"

definition int_to_js_string :: "int \<Rightarrow> string" where
  "int_to_js_string i =
     (if i < 0 then CHR ''-'' # nat_digits (nat (- i)) else nat_digits (nat i))"

text \<open>
  Number::toString on the values it prints without an exponent or a fraction:
  NaN, the infinities and the integers below \<open>10^21\<close> in magnitude. Other finite
  values are outside the modelled fragment (\<open>None\<close>).
\<close>

fun js_number_to_string :: "jsnum \<Rightarrow> string option" where
  "js_number_to_string JNaN = Some ''NaN''"
| "js_number_to_string JPosInf = Some ''Infinity''"
| "js_number_to_string JNegInf = Some ''-Infinity''"
| "js_number_to_string (JNum q) =
     (if of_int \<lfloor>q\<rfloor> = q \<and> \<bar>q\<bar> < 10 ^ 21 then Some (int_to_js_string \<lfloor>q\<rfloor>) else None)"

text \<open>
  The order of the non-NaN numbers, as a key into a linear order: larger numbers get
  smaller keys, so sorting by the key sorts numbers in descending order.
\<close>

fun desc_key :: "jsnum \<Rightarrow> nat \<times> rat" where
  "desc_key JPosInf = (0, 0)"
| "desc_key (JNum q) = (1, - q)"
| "desc_key JNegInf = (2, 0)"
| "desc_key JNaN = (3, 0)"

subsection \<open>Evaluation and round trips\<close>

text \<open>The same bound as a literal, so that evaluation does not compute the powers.\<close>

lemma max_double_bound_code [code]:
  "max_double_bound = 179769313486231580793728971405303415079934132710037826936173778980444968292764750946649017977587207096330286416692887910946555547851940402630657488671505820681908902000708383676273854845817711531764475730270069855571366959622842914819860834936475292719074168444365510704342711559699508093042880177904174497792"
  by (simp add: max_double_bound_def)



lemma digit_value_char_digit [simp]: "(d::nat) < 10 \<Longrightarrow> digit_value (char_of (48 + d)) = Some d"
  by (simp add: digit_value_def Let_def)

lemma nat_digits_ne [simp]: "nat_digits n \<noteq> []"
  by (subst nat_digits.simps) simp

declare nat_digits.simps [simp del]

lemma nat_digits_digits: "c \<in> set (nat_digits n) \<Longrightarrow> is_digit_of 10 c"
proof (induction n rule: nat_digits.induct)
  case (1 n)
  then show ?case
    by (subst (asm) nat_digits.simps) (auto simp: is_digit_of_def split: if_splits)
qed

lemma nat_digits_all_digits: "list_all (is_digit_of 10) (nat_digits n)"
  by (simp add: list_all_iff nat_digits_digits)

lemma digits_value_snoc: "digits_value r (ds @ [c]) = digits_value r ds * r + (case digit_value c of Some d \<Rightarrow> d | None \<Rightarrow> 0)"
  by (simp add: digits_value_def)

lemma digits_value_nat_digits [simp]: "digits_value 10 (nat_digits n) = n"
proof (induction n rule: nat_digits.induct)
  case (1 n)
  show ?case
  proof (cases "n < 10")
    case True
    then show ?thesis by (subst nat_digits.simps) (simp add: digits_value_def)
  next
    case False
    then show ?thesis using "1.IH" by (subst nat_digits.simps) (simp add: digits_value_snoc)
  qed
qed

lemma digit_not_ws: "is_digit_of 10 c \<Longrightarrow> \<not> is_str_ws c"
  by (auto simp: is_digit_of_def digit_value_def is_str_ws_def Let_def split: if_splits)

lemma digit_radix_none: "is_digit_of 10 c \<Longrightarrow> radix_of c = None"
  by (auto simp: is_digit_of_def digit_value_def radix_of_def Let_def split: if_splits)

lemma digit_not_sign: "is_digit_of 10 c \<Longrightarrow> c \<noteq> CHR ''+'' \<and> c \<noteq> CHR ''-'' \<and> c \<noteq> CHR ''.'' \<and> c \<noteq> CHR ''I''"
  by (auto simp: is_digit_of_def digit_value_def)

lemma js_trim_id:
  assumes "s \<noteq> []" "\<not> is_str_ws (hd s)" "\<not> is_str_ws (last s)"
  shows "js_trim s = s"
proof -
  have "dropWhile is_str_ws s = s" using assms by (cases s) auto
  moreover have "dropWhile is_str_ws (rev s) = rev s"
    using assms by (cases "rev s") (auto simp flip: hd_rev)
  ultimately show ?thesis by (simp add: js_trim_def)
qed

lemma js_round_JNum [simp]: "\<bar>q\<bar> < max_double_bound \<Longrightarrow> js_round q = JNum q"
  by (auto simp: js_round_def)

lemma str_unsigned_decimal_digits:
  assumes "ds \<noteq> []" "list_all (is_digit_of 10) ds"
  shows "str_unsigned_decimal ds = Some (js_round (of_nat (digits_value 10 ds)))"
proof -
  have i: "ds \<noteq> ''Infinity''" using assms digit_not_sign by (cases ds) auto
  have t: "takeWhile (is_digit_of 10) ds = ds" and d: "dropWhile (is_digit_of 10) ds = []"
    using assms(2) by (simp_all add: list_all_iff)
  show ?thesis using assms(1)
    by (simp add: str_unsigned_decimal_def i t d Let_def exponent_part_def decimal_mv_def pow10_def)
qed

lemma non_decimal_digits: "list_all (is_digit_of 10) ds \<Longrightarrow> non_decimal ds = None"
  by (auto simp: non_decimal_def digit_radix_none split: list.splits)

lemma string_to_number_digits:
  assumes "ds \<noteq> []" "list_all (is_digit_of 10) ds"
  shows "string_to_number ds = js_round (of_nat (digits_value 10 ds))"
proof -
  have "js_trim ds = ds"
    using assms by (intro js_trim_id) (auto simp: list_all_iff digit_not_ws)
  moreover have "str_decimal ds = str_unsigned_decimal ds"
    using assms digit_not_sign by (cases ds) (auto simp: str_decimal_def)
  ultimately show ?thesis using assms
    by (simp add: string_to_number_def non_decimal_digits str_unsigned_decimal_digits)
qed

lemma string_to_number_nat_digits:
  "of_nat n < max_double_bound \<Longrightarrow> string_to_number (nat_digits n) = JNum (of_nat n)"
  by (simp add: string_to_number_digits nat_digits_all_digits)

lemma string_to_number_neg_digits:
  assumes "ds \<noteq> []" "list_all (is_digit_of 10) ds"
  shows "string_to_number (CHR ''-'' # ds) = js_neg (js_round (of_nat (digits_value 10 ds)))"
proof -
  have "\<not> is_str_ws (last ds)"
    using assms by (simp add: list_all_iff digit_not_ws)
  then have "js_trim (CHR ''-'' # ds) = CHR ''-'' # ds"
    using assms by (intro js_trim_id) (auto simp: is_str_ws_def)
  moreover have "non_decimal (CHR ''-'' # ds) = None"
    by (simp add: non_decimal_def split: list.split)
  moreover have "str_decimal (CHR ''-'' # ds) = map_option js_neg (str_unsigned_decimal ds)"
    by (simp add: str_decimal_def)
  ultimately show ?thesis using assms
    by (simp add: string_to_number_def str_unsigned_decimal_digits)
qed

lemma max_double_bound_big: "(10::rat) ^ 21 < max_double_bound"
  by (simp add: max_double_bound_def)

lemma string_to_number_int_to_js_string:
  assumes "\<bar>i\<bar> < 10 ^ 21"
  shows "string_to_number (int_to_js_string i) = JNum (of_int i)"
proof -
  have "(of_int \<bar>i\<bar> :: rat) < of_int (10 ^ 21)"
    using assms by (simp only: of_int_less_iff)
  then have "(of_int \<bar>i\<bar> :: rat) < max_double_bound"
    using max_double_bound_big by simp
  then have b: "of_nat (nat \<bar>i\<bar>) < max_double_bound"
    by simp
  show ?thesis
  proof (cases "i < 0")
    case True
    then have "of_nat (nat (- i)) < max_double_bound" using b by simp
    with True show ?thesis
      by (simp add: int_to_js_string_def string_to_number_neg_digits nat_digits_all_digits)
  next
    case False
    then show ?thesis using b by (simp add: int_to_js_string_def string_to_number_nat_digits)
  qed
qed

lemma string_to_number_NaN: "string_to_number ''NaN'' = JNaN"
  by code_simp

lemma string_to_number_Infinity: "string_to_number ''Infinity'' = JPosInf"
  by code_simp

lemma string_to_number_neg_Infinity: "string_to_number ''-Infinity'' = JNegInf"
  by code_simp

text \<open>Printing a number with Number::toString and parsing the text with StringToNumber gives
  the number back, on the fragment the printer covers (NaN, the infinities, the integers
  below \<open>10^21\<close>).\<close>

lemma js_number_to_string_roundtrip:
  "js_number_to_string n = Some s \<Longrightarrow> string_to_number s = n"
proof (cases n)
  case (JNum q)
  assume a: "js_number_to_string n = Some s"
  then have q: "of_int \<lfloor>q\<rfloor> = q" "\<bar>q\<bar> < 10 ^ 21" and s: "s = int_to_js_string \<lfloor>q\<rfloor>"
    using JNum by (auto split: if_splits)
  have "\<bar>\<lfloor>q\<rfloor>\<bar> < 10 ^ 21"
    using q by (metis of_int_abs of_int_less_iff of_int_numeral of_int_power)
  then show ?thesis using JNum q s by (simp add: string_to_number_int_to_js_string)
qed (auto simp: string_to_number_NaN string_to_number_Infinity string_to_number_neg_Infinity)

subsection \<open>Sign of a difference, order of numbers\<close>

lemma max_double_bound_pos: "0 < max_double_bound"
  by (simp add: max_double_bound_def)

lemma js_round_neg_iff [simp]: "js_num_less (js_round q) (JNum 0) \<longleftrightarrow> q < 0"
  using max_double_bound_pos by (auto simp: js_round_def)

lemma js_round_not_NaN [simp]: "js_round q \<noteq> JNaN"
  by (simp add: js_round_def)

lemma js_sub_neg_iff:
  "x \<noteq> JNaN \<Longrightarrow> y \<noteq> JNaN \<Longrightarrow> js_num_less (js_sub y x) (JNum 0) \<longleftrightarrow> js_num_less y x"
  by (cases x; cases y) (simp_all add: js_sub_def)

lemma js_num_less_desc_key:
  "x \<noteq> JNaN \<Longrightarrow> y \<noteq> JNaN \<Longrightarrow> js_num_less x y \<longleftrightarrow> desc_key y < desc_key x"
  by (cases x; cases y) auto

lemma desc_key_inj:
  "x \<noteq> JNaN \<Longrightarrow> y \<noteq> JNaN \<Longrightarrow> desc_key x = desc_key y \<longleftrightarrow> x = y"
  by (cases x; cases y) auto

subsection \<open>Rounding of small non-negative values\<close>

lemma js_round_nonneg: "0 \<le> q \<Longrightarrow> q < max_double_bound \<Longrightarrow> js_round q = JNum q"
  by (simp add: js_round_def)

lemma js_trim_all_ws: "list_all is_str_ws s \<Longrightarrow> js_trim s = []"
  by (auto simp: js_trim_def list_all_iff dropWhile_eq_Nil_conv dest: set_dropWhileD)

end
