(* ===== verification/Array_Sort.thy ===== *)
theory Array_Sort
  imports Js_Value
begin

text \<open>
  \<open>Array.prototype.sort(comparefn)\<close> as \<open>src/script.js\<close> calls it on the row
  array. ECMAScript fixes the comparison, SortCompare: the comparator's result, with
  NaN read as \<open>+0\<close>; the element \<open>x\<close> goes before \<open>y\<close> when it is negative. It
  leaves the algorithm to the engine and requires a stable sort when the comparator is
  consistent. Two engines are modelled: an insertion sort that inserts each element,
  left to right, after every element it does not compare below (the binary insertion
  sort V8 applies to short runs, written as a linear scan), and a stable top-down merge
  sort. For a comparator consistent with a key both equal \<open>sort_key\<close> of that key:
  the result is engine-independent. For an inconsistent comparator they can differ.
  The theory also holds \<open>Array.prototype.slice\<close>.
\<close>

type_synonym 'a comparator = "'a \<Rightarrow> 'a \<Rightarrow> jsnum"

definition sort_compare :: "'a comparator \<Rightarrow> 'a \<Rightarrow> 'a \<Rightarrow> jsnum" where
  "sort_compare cmp x y = (let v = cmp x y in if v = JNaN then JNum 0 else v)"

definition sort_lt :: "'a comparator \<Rightarrow> 'a \<Rightarrow> 'a \<Rightarrow> bool" where
  "sort_lt cmp x y \<longleftrightarrow> js_num_less (sort_compare cmp x y) (JNum 0)"

subsection \<open>Engine 1: insertion sort\<close>

fun insert_sorted :: "'a comparator \<Rightarrow> 'a \<Rightarrow> 'a list \<Rightarrow> 'a list" where
  "insert_sorted cmp x [] = [x]"
| "insert_sorted cmp x (y # ys) =
     (if sort_lt cmp x y then x # y # ys else y # insert_sorted cmp x ys)"

fun insertion_sort_from :: "'a comparator \<Rightarrow> 'a list \<Rightarrow> 'a list \<Rightarrow> 'a list" where
  "insertion_sort_from cmp acc [] = acc"
| "insertion_sort_from cmp acc (x # xs) = insertion_sort_from cmp (insert_sorted cmp x acc) xs"

definition insertion_sort :: "'a comparator \<Rightarrow> 'a list \<Rightarrow> 'a list" where
  "insertion_sort cmp xs = insertion_sort_from cmp [] xs"

subsection \<open>Engine 2: merge sort\<close>

fun merge_by :: "'a comparator \<Rightarrow> 'a list \<Rightarrow> 'a list \<Rightarrow> 'a list" where
  "merge_by cmp [] ys = ys"
| "merge_by cmp xs [] = xs"
| "merge_by cmp (x # xs) (y # ys) =
     (if sort_lt cmp y x then y # merge_by cmp (x # xs) ys else x # merge_by cmp xs (y # ys))"

fun merge_sort :: "'a comparator \<Rightarrow> 'a list \<Rightarrow> 'a list" where
  "merge_sort cmp xs =
     (let n = length xs in
      if n \<le> 1 then xs
      else merge_by cmp (merge_sort cmp (take (n div 2) xs)) (merge_sort cmp (drop (n div 2) xs)))"

declare merge_sort.simps [simp del]

text \<open>The engine the chart's \<open>data.sort(...)\<close> runs on (see the engine-independence
  theorems below).\<close>

definition js_array_sort :: "'a comparator \<Rightarrow> 'a list \<Rightarrow> 'a list" where
  "js_array_sort cmp xs = insertion_sort cmp xs"

text \<open>\<open>Array.prototype.slice(start, end)\<close>: negative positions count from the end,
  positions are clamped to the array, an empty range gives the empty array.\<close>

definition js_slice :: "int \<Rightarrow> int \<Rightarrow> 'a list \<Rightarrow> 'a list" where
  "js_slice s e xs =
     (let len = int (length xs);
          from = (if s < 0 then max (len + s) 0 else min s len);
          to = (if e < 0 then max (len + e) 0 else min e len)
      in take (nat (to - from)) (drop (nat from) xs))"

text \<open>A comparator is consistent on a list when SortCompare's sign agrees with a key.\<close>

definition cmp_consistent :: "'a comparator \<Rightarrow> ('a \<Rightarrow> 'k::linorder) \<Rightarrow> 'a list \<Rightarrow> bool" where
  "cmp_consistent cmp k xs \<longleftrightarrow> (\<forall>x\<in>set xs. \<forall>y\<in>set xs. sort_lt cmp x y \<longleftrightarrow> k x < k y)"

subsection \<open>SortCompare\<close>

lemma sort_lt_iff: "sort_lt cmp x y \<longleftrightarrow> js_num_less (cmp x y) (JNum 0)"
  by (auto simp: sort_lt_def sort_compare_def Let_def)

subsection \<open>Permutation\<close>

lemma mset_insert_sorted [simp]: "mset (insert_sorted cmp x ys) = add_mset x (mset ys)"
  by (induction ys) auto

lemma mset_insertion_sort_from: "mset (insertion_sort_from cmp acc xs) = mset acc + mset xs"
  by (induction xs arbitrary: acc) auto

lemma mset_merge_by [simp]: "mset (merge_by cmp xs ys) = mset xs + mset ys"
  by (induction cmp xs ys rule: merge_by.induct) auto

lemma set_merge_by [simp]: "set (merge_by cmp xs ys) = set xs \<union> set ys"
  by (metis mset_merge_by set_mset_mset set_mset_union)

lemma mset_merge_sort [simp]: "mset (merge_sort cmp xs) = mset xs"
proof (induction cmp xs rule: merge_sort.induct)
  case (1 cmp xs)
  then show ?case
    by (subst merge_sort.simps) (simp add: Let_def flip: mset_append)
qed

lemma set_merge_sort [simp]: "set (merge_sort cmp xs) = set xs"
  by (metis mset_merge_sort set_mset_mset)

lemma cmp_consistent_subset:
  "cmp_consistent cmp k xs \<Longrightarrow> set ys \<subseteq> set xs \<Longrightarrow> cmp_consistent cmp k ys"
  by (auto simp: cmp_consistent_def)

subsection \<open>Insertion: order and stability\<close>

lemma sorted_insert_sorted:
  "sorted (map k ys) \<Longrightarrow> cmp_consistent cmp k (x # ys) \<Longrightarrow> sorted (map k (insert_sorted cmp x ys))"
proof (induction ys)
  case (Cons y ys)
  have c: "cmp_consistent cmp k (x # ys)"
    using Cons.prems(2) by (rule cmp_consistent_subset) auto
  have "set (insert_sorted cmp x ys) = insert x (set ys)"
    by (metis mset_insert_sorted set_mset_add_mset_insert set_mset_mset)
  then show ?case using Cons.prems Cons.IH [OF _ c]
    by (auto simp: cmp_consistent_def not_less)
qed simp

lemma filter_insert_sorted:
  assumes "sorted (map k ys)" "cmp_consistent cmp k (x # ys)"
  shows "filter (\<lambda>z. k z = v) (insert_sorted cmp x ys) =
           filter (\<lambda>z. k z = v) ys @ filter (\<lambda>z. k z = v) [x]"
  using assms
proof (induction ys)
  case (Cons y ys)
  have c: "cmp_consistent cmp k (x # ys)"
    using Cons.prems(2) by (rule cmp_consistent_subset) auto
  show ?case
  proof (cases "sort_lt cmp x y")
    case True
    then have "k x < k y" using Cons.prems(2) by (simp add: cmp_consistent_def)
    then have "\<forall>z\<in>set (y # ys). k x < k z" using Cons.prems(1) by auto
    then have "k y \<noteq> k x" "filter (\<lambda>z. k z = k x) ys = []"
      by (auto simp: filter_empty_conv)
    then show ?thesis using True by (cases "v = k x") auto
  next
    case False
    then show ?thesis using Cons.IH [OF _ c] Cons.prems(1) by simp
  qed
qed simp

lemma insertion_sort_from_correct:
  assumes "sorted (map k acc)" "cmp_consistent cmp k (acc @ xs)"
    and "\<forall>v. filter (\<lambda>z. k z = v) acc = filter (\<lambda>z. k z = v) ps"
  shows "sorted (map k (insertion_sort_from cmp acc xs)) \<and>
    (\<forall>v. filter (\<lambda>z. k z = v) (insertion_sort_from cmp acc xs) = filter (\<lambda>z. k z = v) (ps @ xs))"
  using assms
proof (induction xs arbitrary: acc ps)
  case (Cons x xs)
  let ?acc = "insert_sorted cmp x acc"
  have c1: "cmp_consistent cmp k (x # acc)"
    using Cons.prems(2) by (rule cmp_consistent_subset) auto
  have s: "sorted (map k ?acc)" using Cons.prems(1) c1 by (rule sorted_insert_sorted)
  have c: "cmp_consistent cmp k (?acc @ xs)"
    using Cons.prems(2) by (rule cmp_consistent_subset)
      (auto simp: set_mset_mset [symmetric] simp del: set_mset_mset)
  have f: "\<forall>v. filter (\<lambda>z. k z = v) ?acc = filter (\<lambda>z. k z = v) (ps @ [x])"
    using filter_insert_sorted [OF Cons.prems(1) c1] Cons.prems(3) by simp
  show ?case using Cons.IH [OF s c f] by simp
qed simp

theorem insertion_sort_stable_sorted_perm:
  assumes "cmp_consistent cmp k xs"
  shows "stable_sorted_perm k xs (insertion_sort cmp xs)"
  using insertion_sort_from_correct [of k "[]" cmp xs "[]"] assms
  by (simp add: stable_sorted_perm_def insertion_sort_def mset_insertion_sort_from)

subsection \<open>Merge: order and stability\<close>

lemma merge_by_correct:
  assumes "sorted (map k xs)" "sorted (map k ys)" "cmp_consistent cmp k (xs @ ys)"
  shows "sorted (map k (merge_by cmp xs ys)) \<and>
    (\<forall>v. filter (\<lambda>z. k z = v) (merge_by cmp xs ys) =
         filter (\<lambda>z. k z = v) xs @ filter (\<lambda>z. k z = v) ys)"
  using assms
proof (induction cmp xs ys rule: merge_by.induct)
  case (3 cmp x xs y ys)
  have kk: "sort_lt cmp y x \<longleftrightarrow> k y < k x"
    using "3.prems"(3) by (simp add: cmp_consistent_def)
  show ?case
  proof (cases "sort_lt cmp y x")
    case True
    have c: "cmp_consistent cmp k ((x # xs) @ ys)"
      using "3.prems"(3) by (rule cmp_consistent_subset) auto
    note ih = "3.IH"(1) [OF True _ _ c]
    have "\<forall>z\<in>set (x # xs). k y < k z" using True kk "3.prems"(1) by auto
    then have "k x \<noteq> k y" "filter (\<lambda>z. k z = k y) xs = []"
      by (auto simp: filter_empty_conv)
    then show ?thesis using True kk "3.prems"(1,2) ih by auto
  next
    case False
    have c: "cmp_consistent cmp k (xs @ y # ys)"
      using "3.prems"(3) by (rule cmp_consistent_subset) auto
    note ih = "3.IH"(2) [OF False _ _ c]
    have "\<forall>z\<in>set (y # ys). k x \<le> k z" using False kk "3.prems"(2) by auto
    then show ?thesis using False "3.prems"(1,2) ih by auto
  qed
qed auto

theorem merge_sort_stable_sorted_perm:
  "cmp_consistent cmp k xs \<Longrightarrow> stable_sorted_perm k xs (merge_sort cmp xs)"
proof (induction cmp xs rule: merge_sort.induct)
  case (1 cmp xs)
  let ?n = "length xs"
  let ?l = "take (?n div 2) xs" and ?r = "drop (?n div 2) xs"
  show ?case
  proof (cases "?n \<le> 1")
    case True
    then show ?thesis
      by (subst merge_sort.simps) (simp add: stable_sorted_perm_def sorted01)
  next
    case False
    have cl: "cmp_consistent cmp k ?l" and cr: "cmp_consistent cmp k ?r"
      using "1.prems" by (auto intro: cmp_consistent_subset dest: in_set_takeD in_set_dropD)
    have l: "stable_sorted_perm k ?l (merge_sort cmp ?l)" using "1.IH"(1) False cl by simp
    have r: "stable_sorted_perm k ?r (merge_sort cmp ?r)" using "1.IH"(2) False cr by simp
    have c: "cmp_consistent cmp k (merge_sort cmp ?l @ merge_sort cmp ?r)"
      using "1.prems" by (rule cmp_consistent_subset)
        (auto dest: in_set_takeD in_set_dropD)
    have sl: "sorted (map k (merge_sort cmp ?l))" and sr: "sorted (map k (merge_sort cmp ?r))"
      using l r by (simp_all add: stable_sorted_perm_def)
    note m = merge_by_correct [OF sl sr c]
    have f: "filter (\<lambda>z. k z = v) (merge_by cmp (merge_sort cmp ?l) (merge_sort cmp ?r)) =
      filter (\<lambda>z. k z = v) xs" for v
    proof -
      have "filter (\<lambda>z. k z = v) (merge_by cmp (merge_sort cmp ?l) (merge_sort cmp ?r)) =
        filter (\<lambda>z. k z = v) ?l @ filter (\<lambda>z. k z = v) ?r"
        using m stable_sorted_perm_filter [OF l] stable_sorted_perm_filter [OF r] by simp
      also have "\<dots> = filter (\<lambda>z. k z = v) xs"
        by (simp flip: filter_append)
      finally show ?thesis .
    qed
    have "mset (merge_by cmp (merge_sort cmp ?l) (merge_sort cmp ?r)) = mset xs"
      by (simp flip: mset_append)
    then show ?thesis
      using m f False by (subst merge_sort.simps) (simp add: stable_sorted_perm_def Let_def)
  qed
qed

subsection \<open>Both engines implement the stable sort by the key\<close>

lemma js_array_sort_sort_key [sort_facts]:
  "cmp_consistent cmp k xs \<Longrightarrow> js_array_sort cmp xs = sort_key k xs"
  by (simp add: js_array_sort_def insertion_sort_stable_sorted_perm
      flip: stable_sorted_perm_iff_sort_key)

lemma merge_sort_sort_key [sort_facts]:
  "cmp_consistent cmp k xs \<Longrightarrow> merge_sort cmp xs = sort_key k xs"
  by (simp add: merge_sort_stable_sorted_perm flip: stable_sorted_perm_iff_sort_key)

lemma js_slice_0 [simp]: "0 \<le> n \<Longrightarrow> js_slice 0 n xs = take (nat n) xs"
  by (simp add: js_slice_def Let_def min_def)

end
