(* ===== verification/D3.thy ===== *)
theory D3
  imports Array_Sort
begin

text \<open>
  The parts of the d3 library (d3-array, d3-scale, d3-axis, d3-selection, d3-fetch)
  that \<open>src/script.js\<close> calls, modelled from their documented behaviour; the library
  itself is not part of the repository. \<open>d3.max\<close> skips \<open>undefined\<close> and NaN;
  a linear scale maps its two-point domain to its range by normalising and
  interpolating, and answers \<open>undefined\<close> (its \<open>unknown\<close> value) for an input that
  is not a number; a band scale interns its domain (a repeated value keeps its first
  slot) and divides its range into equal steps with inner and outer padding. Axes are
  descriptors: the ticks d3 draws for them are not modelled. The DOM is a tree of
  elements with attributes, styles and children; setting an attribute to
  \<open>undefined\<close> removes it, as \<open>selection.attr\<close> does.
\<close>

subsection \<open>d3.max (d3-array)\<close>

text \<open>\<open>value >= value\<close>: false when either side is NaN after ToNumber.\<close>

fun js_geq :: "jsval \<Rightarrow> jsval \<Rightarrow> bool" where
  "js_geq (JStr a) (JStr b) = (\<not> str_less a b)"
| "js_geq x y =
     (to_number x \<noteq> JNaN \<and> to_number y \<noteq> JNaN \<and> \<not> js_num_less (to_number x) (to_number y))"

definition d3_max_step :: "jsval \<Rightarrow> jsval \<Rightarrow> jsval" where
  "d3_max_step m v =
     (if v \<noteq> JUndefined \<and> (js_less m v \<or> (m = JUndefined \<and> js_geq v v)) then v else m)"

definition d3_max :: "('a \<Rightarrow> jsval) \<Rightarrow> 'a list \<Rightarrow> jsval" where
  "d3_max valueof xs = foldl d3_max_step JUndefined (map valueof xs)"

subsection \<open>d3.scaleLinear (d3-scale, continuous)\<close>

record linear_scale =
  lin_domain :: "jsnum \<times> jsnum"
  lin_range :: "jsnum \<times> jsnum"

definition d3_scale_linear :: linear_scale where
  "d3_scale_linear = \<lparr>lin_domain = (JNum 0, JNum 1), lin_range = (JNum 0, JNum 1)\<rparr>"

text \<open>\<open>.domain([a, b])\<close> stores \<open>+a, +b\<close>; \<open>.range([c, d])\<close> stores the values.\<close>

definition linear_set_domain :: "jsval \<Rightarrow> jsval \<Rightarrow> linear_scale \<Rightarrow> linear_scale" where
  "linear_set_domain a b s = s\<lparr>lin_domain := (to_number a, to_number b)\<rparr>"

definition linear_set_range :: "jsnum \<Rightarrow> jsnum \<Rightarrow> linear_scale \<Rightarrow> linear_scale" where
  "linear_set_range c d s = s\<lparr>lin_range := (c, d)\<rparr>"

text \<open>\<open>normalize(a, b)\<close>: \<open>(x - a) / (b - a)\<close>, or the constant 0.5 when \<open>b - a\<close> is
  zero, or NaN when it is NaN.\<close>

definition d3_normalize :: "jsnum \<Rightarrow> jsnum \<Rightarrow> jsnum \<Rightarrow> jsnum" where
  "d3_normalize a b x =
     (let d = js_sub b a in
      if d = JNaN then JNaN else if d = JNum 0 then JNum (1 / 2) else js_div (js_sub x a) d)"

text \<open>\<open>interpolateNumber(a, b)(t) = a * (1 - t) + b * t\<close>.\<close>

definition d3_interpolate :: "jsnum \<Rightarrow> jsnum \<Rightarrow> jsnum \<Rightarrow> jsnum" where
  "d3_interpolate a b t = js_add (js_mul a (js_sub (JNum 1) t)) (js_mul b t)"

text \<open>\<open>bimap\<close>: a descending domain is normalised from its upper end, with the range
  swapped.\<close>

definition d3_bimap :: "jsnum \<times> jsnum \<Rightarrow> jsnum \<times> jsnum \<Rightarrow> jsnum \<Rightarrow> jsnum" where
  "d3_bimap dm rg x =
     (let (d0, d1) = dm; (r0, r1) = rg in
      if js_num_less d1 d0 then d3_interpolate r1 r0 (d3_normalize d1 d0 x)
      else d3_interpolate r0 r1 (d3_normalize d0 d1 x))"

text \<open>\<open>scale(x)\<close>: \<open>unknown\<close> (undefined) when \<open>x\<close> is nullish or \<open>+x\<close> is NaN;
  clamping is off by default.\<close>

definition linear_apply :: "linear_scale \<Rightarrow> jsval \<Rightarrow> jsval" where
  "linear_apply s v =
     (if v = JUndefined \<or> to_number v = JNaN then JUndefined
      else JNumber (d3_bimap (lin_domain s) (lin_range s) (to_number v)))"

subsection \<open>d3.scaleBand (d3-scale, ordinal)\<close>

text \<open>The ordinal domain interns its values: a value already present is skipped.\<close>

fun intern_domain_from :: "jsval list \<Rightarrow> jsval list \<Rightarrow> jsval list" where
  "intern_domain_from acc [] = acc"
| "intern_domain_from acc (v # vs) =
     intern_domain_from (if v \<in> set acc then acc else acc @ [v]) vs"

fun index_of :: "'a \<Rightarrow> 'a list \<Rightarrow> nat option" where
  "index_of x [] = None"
| "index_of x (y # ys) = (if x = y then Some 0 else map_option Suc (index_of x ys))"

record band_scale =
  band_domain :: "jsval list"
  band_range :: "rat \<times> rat"
  padding_inner :: rat
  padding_outer :: rat
  band_align :: rat

definition d3_scale_band :: band_scale where
  "d3_scale_band =
     \<lparr>band_domain = [], band_range = (0, 1), padding_inner = 0, padding_outer = 0,
      band_align = 1 / 2\<rparr>"

definition band_set_domain :: "jsval list \<Rightarrow> band_scale \<Rightarrow> band_scale" where
  "band_set_domain vs s = s\<lparr>band_domain := intern_domain_from [] vs\<rparr>"

definition band_set_range :: "rat \<Rightarrow> rat \<Rightarrow> band_scale \<Rightarrow> band_scale" where
  "band_set_range r0 r1 s = s\<lparr>band_range := (r0, r1)\<rparr>"

text \<open>\<open>.padding(p)\<close> sets the inner padding to \<open>min(1, p)\<close> and the outer to \<open>p\<close>.\<close>

definition band_set_padding :: "rat \<Rightarrow> band_scale \<Rightarrow> band_scale" where
  "band_set_padding p s = s\<lparr>padding_inner := min 1 p, padding_outer := p\<rparr>"

text \<open>\<open>rescale()\<close>: step, start and bandwidth (rounding is off).\<close>

definition band_step :: "band_scale \<Rightarrow> rat" where
  "band_step s =
     (let n = of_nat (length (band_domain s)); (r0, r1) = band_range s in
      (max r0 r1 - min r0 r1) / max 1 (n - padding_inner s + padding_outer s * 2))"

definition band_start :: "band_scale \<Rightarrow> rat" where
  "band_start s =
     (let n = of_nat (length (band_domain s)); (r0, r1) = band_range s in
      min r0 r1 + (max r0 r1 - min r0 r1 - band_step s * (n - padding_inner s)) * band_align s)"

definition bandwidth :: "band_scale \<Rightarrow> rat" where
  "bandwidth s = band_step s * (1 - padding_inner s)"

definition band_values :: "band_scale \<Rightarrow> rat list" where
  "band_values s =
     (let vs = map (\<lambda>i. band_start s + band_step s * of_nat i) [0..<length (band_domain s)] in
      if snd (band_range s) < fst (band_range s) then rev vs else vs)"

definition band_apply :: "band_scale \<Rightarrow> jsval \<Rightarrow> jsval" where
  "band_apply s v =
     (case index_of v (band_domain s) of
        None \<Rightarrow> JUndefined
      | Some i \<Rightarrow> JNumber (JNum (band_values s ! i)))"

subsection \<open>Axes (d3-axis)\<close>

datatype orient = AxisBottom | AxisLeft

datatype scale = LinearScale linear_scale | BandScale band_scale

record axis =
  ax_orient :: orient
  ax_scale :: scale
  tick_size_inner :: rat
  tick_size_outer :: rat
  tick_format :: "jsval option"

definition d3_axis :: "orient \<Rightarrow> scale \<Rightarrow> axis" where
  "d3_axis ori sc =
     \<lparr>ax_orient = ori, ax_scale = sc, tick_size_inner = 6, tick_size_outer = 6, tick_format = None\<rparr>"

definition axis_tick_size :: "rat \<Rightarrow> axis \<Rightarrow> axis" where
  "axis_tick_size t a = a\<lparr>tick_size_inner := t, tick_size_outer := t\<rparr>"

definition axis_tick_format :: "jsval \<Rightarrow> axis \<Rightarrow> axis" where
  "axis_tick_format f a = a\<lparr>tick_format := Some f\<rparr>"

subsection \<open>The DOM and d3-selection\<close>

text \<open>
  An element has a tag, attributes, inline styles and children; \<open>.text(v)\<close> replaces
  the children by one text node; \<open>.call(axis)\<close> draws the axis into the element,
  here one \<open>AxisContent\<close> node that records the axis and the styles and attributes
  the chain then applies to the tick labels (\<open>selectAll('text')\<close>) or to the tick
  lines (\<open>selectAll("line")\<close>).
\<close>

datatype node =
    Elem string "(string \<times> jsval) list" "(string \<times> string) list" "node list"
  | TextNode jsval
  | AxisContent axis "(string \<times> string) list" "(string \<times> jsval) list"

definition elem :: "string \<Rightarrow> node" where
  "elem tag = Elem tag [] [] []"

fun set_attr :: "string \<Rightarrow> jsval \<Rightarrow> node \<Rightarrow> node" where
  "set_attr a v (Elem t as ss cs) =
     Elem t (if v = JUndefined then filter (\<lambda>p. fst p \<noteq> a) as else alist_set as a v) ss cs"
| "set_attr a v n = n"

fun set_style :: "string \<Rightarrow> string \<Rightarrow> node \<Rightarrow> node" where
  "set_style p v (Elem t as ss cs) = Elem t as (alist_set ss p v) cs"
| "set_style p v n = n"

fun set_text :: "jsval \<Rightarrow> node \<Rightarrow> node" where
  "set_text v (Elem t as ss cs) = Elem t as ss [TextNode v]"
| "set_text v n = n"

fun append_child :: "node \<Rightarrow> node \<Rightarrow> node" where
  "append_child c (Elem t as ss cs) = Elem t as ss (cs @ [c])"
| "append_child c n = n"

fun call_axis :: "axis \<Rightarrow> (string \<times> string) list \<Rightarrow> (string \<times> jsval) list \<Rightarrow> node \<Rightarrow> node" where
  "call_axis ax ts ls (Elem t as ss cs) = Elem t as ss (cs @ [AxisContent ax ts ls])"
| "call_axis ax ts ls n = n"

fun node_attr :: "node \<Rightarrow> string \<Rightarrow> jsval" where
  "node_attr (Elem t as ss cs) a = alist_get as a JUndefined"
| "node_attr n a = JUndefined"

fun node_children :: "node \<Rightarrow> node list" where
  "node_children (Elem t as ss cs) = cs"
| "node_children n = []"

subsection \<open>d3.csv (d3-fetch, d3-dsv)\<close>

text \<open>
  A row object has one property per header column, each a string: d3-dsv fills a
  missing cell with the empty string. Loading either fails (an unreachable or
  unparsable resource rejects the promise) or yields the rows.
\<close>

datatype load_error = DataLoadError

type_synonym row = "(string \<times> jsval) list"

fun is_jstr :: "jsval \<Rightarrow> bool" where
  "is_jstr (JStr s) = True"
| "is_jstr v = False"

definition csv_rows_wf :: "string list \<Rightarrow> row list \<Rightarrow> bool" where
  "csv_rows_wf cols rows \<longleftrightarrow> (\<forall>r\<in>set rows. map fst r = cols \<and> (\<forall>p\<in>set r. is_jstr (snd p)))"

subsection \<open>Facts on d3.max\<close>

lemma d3_max_step_num:
  "d3_max_step (JNumber a) (JNumber n) = (if js_num_less a n then JNumber n else JNumber a)"
  by (simp add: d3_max_step_def)

lemma d3_max_step_first:
  "n \<noteq> JNaN \<Longrightarrow> d3_max_step JUndefined (JNumber n) = JNumber n"
  by (cases n) (simp_all add: d3_max_step_def)

lemma d3_max_foldl:
  assumes "\<forall>v\<in>set vs. \<exists>n. v = JNumber n \<and> n \<noteq> JNaN" "a \<noteq> JNaN"
  shows "\<exists>b. foldl d3_max_step (JNumber a) vs = JNumber b \<and> b \<noteq> JNaN \<and>
           (b = a \<or> JNumber b \<in> set vs) \<and> desc_key b \<le> desc_key a \<and>
           (\<forall>v\<in>set vs. desc_key b \<le> desc_key (to_number v))"
  using assms
proof (induction vs arbitrary: a)
  case (Cons v vs)
  obtain n where v: "v = JNumber n" "n \<noteq> JNaN" using Cons.prems(1) by auto
  have vs: "\<forall>v\<in>set vs. \<exists>n. v = JNumber n \<and> n \<noteq> JNaN" using Cons.prems(1) by simp
  show ?case
  proof (cases "js_num_less a n")
    case True
    then have lt: "desc_key n < desc_key a" using v Cons.prems(2) js_num_less_desc_key by blast
    obtain b where "foldl d3_max_step (JNumber n) vs = JNumber b" "b \<noteq> JNaN"
      "b = n \<or> JNumber b \<in> set vs" "desc_key b \<le> desc_key n"
      "\<forall>v\<in>set vs. desc_key b \<le> desc_key (to_number v)"
      using Cons.IH [OF vs v(2)] by blast
    then show ?thesis using True v lt by (auto simp: d3_max_step_num)
  next
    case False
    then have le: "desc_key a \<le> desc_key n" using v Cons.prems(2) js_num_less_desc_key
      by (metis not_le)
    obtain b where "foldl d3_max_step (JNumber a) vs = JNumber b" "b \<noteq> JNaN"
      "b = a \<or> JNumber b \<in> set vs" "desc_key b \<le> desc_key a"
      "\<forall>v\<in>set vs. desc_key b \<le> desc_key (to_number v)"
      using Cons.IH [OF vs Cons.prems(2)] by blast
    then show ?thesis using False v le by (auto simp: d3_max_step_num)
  qed
qed simp

lemma d3_max_is_max:
  assumes "xs \<noteq> []" "\<forall>x\<in>set xs. \<exists>n. f x = JNumber n \<and> n \<noteq> JNaN"
  shows "\<exists>x\<in>set xs. d3_max f xs = f x \<and>
           (\<forall>y\<in>set xs. desc_key (to_number (f x)) \<le> desc_key (to_number (f y)))"
proof -
  obtain x xs' where xs: "xs = x # xs'" using assms(1) by (cases xs) auto
  obtain a where a: "f x = JNumber a" "a \<noteq> JNaN" using assms(2) xs by auto
  have vs: "\<forall>v\<in>set (map f xs'). \<exists>n. v = JNumber n \<and> n \<noteq> JNaN" using assms(2) xs by auto
  obtain b where b: "foldl d3_max_step (JNumber a) (map f xs') = JNumber b"
      "b = a \<or> JNumber b \<in> set (map f xs')" "desc_key b \<le> desc_key a"
      "\<forall>v\<in>set (map f xs'). desc_key b \<le> desc_key (to_number v)"
    using d3_max_foldl [OF vs a(2)] by blast
  have m: "d3_max f xs = JNumber b"
    using b(1) a by (simp add: d3_max_def xs d3_max_step_first)
  have "\<exists>z\<in>set xs. f z = JNumber b"
    using b(2) a xs by (auto simp: image_iff)
  then obtain z where z: "z \<in> set xs" "f z = JNumber b" by blast
  have "\<forall>y\<in>set xs. desc_key b \<le> desc_key (to_number (f y))"
    using b(3,4) a xs by auto
  then show ?thesis using m z by (intro bexI [of _ z]) auto
qed

subsection \<open>Facts on the DOM and the scales\<close>

lemma node_attr_set_attr [simp]:
  "node_attr (set_attr a v (Elem t as ss cs)) b = (if b = a then v else node_attr (Elem t as ss cs) b)"
  by (auto simp: alist_get_filter_key)

lemma foldl_append_child:
  "foldl (\<lambda>g c. append_child c g) (Elem t as ss cs) xs = Elem t as ss (cs @ xs)"
  by (induction xs arbitrary: cs) auto

lemma intern_domain_from_distinct:
  "distinct (acc @ vs) \<Longrightarrow> intern_domain_from acc vs = acc @ vs"
  by (induction acc vs rule: intern_domain_from.induct) auto

lemma intern_domain_from_set: "set (intern_domain_from acc vs) = set acc \<union> set vs"
  by (induction acc vs rule: intern_domain_from.induct) auto

lemma intern_domain_from_distinct_result:
  "distinct acc \<Longrightarrow> distinct (intern_domain_from acc vs)"
  by (induction acc vs rule: intern_domain_from.induct) auto

lemma length_intern_domain: "length (intern_domain_from [] vs) = card (set vs)"
  by (metis distinct_card intern_domain_from_distinct_result intern_domain_from_set
      distinct.simps(1) sup_bot.left_neutral set_empty)

lemma linear_apply_proportional:
  assumes "lin_domain s = (JNum 0, JNum m)" "lin_range s = (JNum 0, JNum w)"
    and "0 < m" "m < max_double_bound" "0 \<le> c" "c \<le> m" "0 \<le> w" "w < max_double_bound"
  shows "linear_apply s (JNumber (JNum c)) = JNumber (JNum (w * c / m))"
proof -
  have cm: "c / m \<le> 1" "0 \<le> c / m" using assms(3,5,6) by (simp_all add: divide_le_eq_1)
  have "w * (c / m) \<le> w * 1" using cm assms(7) by (intro mult_left_mono) auto
  then have q: "0 \<le> w * c / m" "w * c / m < max_double_bound"
    using assms(3,5,7,8) by simp_all
  have r: "0 \<le> 1 - c / m" "1 - c / m < max_double_bound"
    using cm max_double_bound_big by simp_all
  have c: "c < max_double_bound" "c / m < max_double_bound"
    using assms(4,6) cm max_double_bound_big by simp_all
  show ?thesis using assms(1-5) q r c cm max_double_bound_pos
    by (simp add: linear_apply_def d3_bimap_def d3_normalize_def d3_interpolate_def js_sub_def
        js_round_nonneg)
qed

lemma linear_apply_degenerate:
  assumes "lin_domain s = (JNum 0, JNum 0)" "lin_range s = (JNum 0, JNum w)"
    and "0 \<le> w" "w < max_double_bound" "c < max_double_bound" "0 \<le> c"
  shows "linear_apply s (JNumber (JNum c)) = JNumber (JNum (w / 2))"
proof -
  have n: "d3_normalize (JNum 0) (JNum 0) (JNum c) = JNum (1 / 2)"
    using max_double_bound_pos by (simp add: d3_normalize_def js_sub_def js_round_nonneg)
  have h: "(1 / 2 :: rat) < max_double_bound" "w / 2 < max_double_bound" "0 \<le> w / 2"
    using max_double_bound_big assms(3,4) by simp_all
  have i: "d3_interpolate (JNum 0) (JNum w) (JNum (1 / 2)) = JNum (w / 2)"
    using h max_double_bound_pos by (simp add: d3_interpolate_def js_sub_def js_round_nonneg)
  show ?thesis using assms n i by (simp add: linear_apply_def d3_bimap_def)
qed

end
