(* ===== verification/Dsv.thy ===== *)
theory Dsv
  imports D3
begin

text \<open>
  The CSV reader behind \<open>d3.csv\<close> (d3-dsv's \<open>csvParse\<close>), modelled from its
  documented algorithm. The text loses one final line feed and then one final
  carriage return. A tokenizer then reads fields: a quoted field runs to the next quote
  that is not doubled, a doubled quote stands for one quote, and the character after the
  closing quote is consumed whatever it is. An unquoted field runs to a comma, a line
  feed or a carriage return (a CR LF pair counts as one line end). A line end yields an
  end-of-line token, and the end of the text ends the last field. The first row names
  the columns. Each further row becomes an object with one property per column, a
  missing cell read as the empty string. The reader never fails: malformed text, such as
  an unterminated quote, is read leniently. \<open>csvFormat\<close> is here as the inverse
  specification: it quotes a field holding a quote, a comma, a CR or a LF, and doubles
  its quotes.
\<close>

datatype dsv_tok = Field string | EOL

datatype dsv_end = EndDelim | EndEol | EndEof

definition LF :: char where "LF = CHR 0x0A"
definition CR :: char where "CR = CHR 0x0D"
definition QUOTE :: char where "QUOTE = CHR 0x22"
definition COMMA :: char where "COMMA = CHR 0x2C"

text \<open>A CR is a line end; a LF right after it belongs to the same line end.\<close>

fun skip_lf :: "string \<Rightarrow> string" where
  "skip_lf (c # cs) = (if c = LF then cs else c # cs)"
| "skip_lf [] = []"

fun scan_unquoted :: "string \<Rightarrow> string \<times> string \<times> dsv_end" where
  "scan_unquoted [] = ([], [], EndEof)"
| "scan_unquoted (c # cs) =
     (if c = LF then ([], cs, EndEol)
      else if c = CR then ([], skip_lf cs, EndEol)
      else if c = COMMA then ([], cs, EndDelim)
      else (case scan_unquoted cs of (f, r, e) \<Rightarrow> (c # f, r, e)))"

text \<open>The inside of a quoted field: its text, the rest after the closing quote, and
  whether a closing quote was found.\<close>

fun scan_quoted :: "string \<Rightarrow> string \<times> string \<times> bool" where
  "scan_quoted [] = ([], [], False)"
| "scan_quoted (c # cs) =
     (if c = QUOTE then
        (case cs of
           d # ds \<Rightarrow>
             if d = QUOTE then (case scan_quoted ds of (f, r, b) \<Rightarrow> (QUOTE # f, r, b))
             else ([], cs, True)
         | [] \<Rightarrow> ([], [], True))
      else (case scan_quoted cs of (f, r, b) \<Rightarrow> (c # f, r, b)))"

text \<open>\<open>token()\<close> called until it answers EOF, on the text after trimming. A call
  starting at a quote reads a quoted field (\<open>lex_quoted\<close> continues after it), any
  other call an unquoted one (\<open>lex_unquoted\<close>); each reads at least one character, or
  it ends the text.\<close>

function dsv_lex :: "string \<Rightarrow> dsv_tok list"
and lex_quoted :: "string \<times> string \<times> bool \<Rightarrow> dsv_tok list"
and lex_unquoted :: "string \<times> string \<times> dsv_end \<Rightarrow> dsv_tok list" where
  "dsv_lex s =
     (if s \<noteq> [] \<and> hd s = QUOTE then lex_quoted (scan_quoted (tl s))
      else lex_unquoted (scan_unquoted s))"
| "lex_quoted (f, r, ok) =
     (if \<not> ok \<or> r = [] then [Field f]
      else if hd r = LF then Field f # EOL # dsv_lex (tl r)
      else if hd r = CR then Field f # EOL # dsv_lex (skip_lf (tl r))
      else Field f # dsv_lex (tl r))"
| "lex_unquoted (f, r, EndEof) = [Field f]"
| "lex_unquoted (f, r, EndEol) = Field f # EOL # dsv_lex r"
| "lex_unquoted (f, r, EndDelim) = Field f # dsv_lex r"
  by pat_completeness auto

definition dsv_trim :: "string \<Rightarrow> string" where
  "dsv_trim s =
     (let s1 = (if s \<noteq> [] \<and> last s = LF then butlast s else s) in
      if s1 \<noteq> [] \<and> last s1 = CR then butlast s1 else s1)"

definition dsv_tokens :: "string \<Rightarrow> dsv_tok list" where
  "dsv_tokens text = (if text = [] then [] else dsv_lex (dsv_trim text))"

text \<open>\<open>parseRows\<close>: the fields up to each end-of-line token form a row.\<close>

fun dsv_rows :: "dsv_tok list \<Rightarrow> string list list"
and dsv_row :: "string list \<Rightarrow> dsv_tok list \<Rightarrow> string list list" where
  "dsv_rows [] = []"
| "dsv_rows (EOL # ts) = [] # dsv_rows ts"
| "dsv_rows (Field f # ts) = dsv_row [f] ts"
| "dsv_row acc [] = [acc]"
| "dsv_row acc (EOL # ts) = acc # dsv_rows ts"
| "dsv_row acc (Field f # ts) = dsv_row (acc @ [f]) ts"

text \<open>\<open>objectConverter(columns)\<close>: \<open>{column_i: d[i] || ""}\<close>; a repeated column name keeps
  its first position and takes the last value, as an object literal does.\<close>

definition object_row :: "string list \<Rightarrow> string list \<Rightarrow> row" where
  "object_row cols cells =
     foldl (\<lambda>obj i. alist_set obj (cols ! i) (JStr (if i < length cells then cells ! i else [])))
       [] [0..<length cols]"

definition csv_parse :: "string \<Rightarrow> row list" where
  "csv_parse text =
     (case dsv_rows (dsv_tokens text) of [] \<Rightarrow> [] | cols # rs \<Rightarrow> map (object_row cols) rs)"

text \<open>\<open>d3.csv(url)\<close>: a failed fetch rejects; fetched text is parsed.\<close>

definition d3_csv :: "load_error + string \<Rightarrow> load_error + row list" where
  "d3_csv r = (case r of Inl e \<Rightarrow> Inl e | Inr text \<Rightarrow> Inr (csv_parse text))"

subsection \<open>csvFormatRows\<close>

definition needs_quote :: "string \<Rightarrow> bool" where
  "needs_quote f \<longleftrightarrow> (\<exists>c\<in>set f. c = QUOTE \<or> c = COMMA \<or> c = LF \<or> c = CR)"

fun escape_quotes :: "string \<Rightarrow> string" where
  "escape_quotes [] = []"
| "escape_quotes (c # cs) =
     (if c = QUOTE then QUOTE # QUOTE # escape_quotes cs else c # escape_quotes cs)"

definition format_value :: "string \<Rightarrow> string" where
  "format_value f = (if needs_quote f then QUOTE # escape_quotes f @ [QUOTE] else f)"

fun join_with :: "string \<Rightarrow> string list \<Rightarrow> string" where
  "join_with sep [] = []"
| "join_with sep [x] = x"
| "join_with sep (x # xs) = x @ sep @ join_with sep xs"

definition format_row :: "string list \<Rightarrow> string" where
  "format_row r = join_with [COMMA] (map format_value r)"

definition csv_format_rows :: "string list list \<Rightarrow> string" where
  "csv_format_rows rows = join_with [LF] (map format_row rows)"

subsection \<open>Termination of the tokenizer\<close>

lemma skip_lf_length: "length (skip_lf s) \<le> length s"
  by (cases s) auto

lemma scan_unquoted_length:
  "scan_unquoted s = (f, r, e) \<Longrightarrow> e \<noteq> EndEof \<Longrightarrow> length r < length s"
proof (induction s arbitrary: f r e)
  case (Cons c cs)
  then show ?case
    using skip_lf_length [of cs]
    by (auto split: if_splits prod.splits intro: less_SucI)
qed simp

lemma scan_quoted_length: "scan_quoted s = (f, r, b) \<Longrightarrow> length r \<le> length s"
proof (induction s arbitrary: f r b rule: scan_quoted.induct)
  case (2 c cs)
  then show ?case by (auto split: if_splits list.splits prod.splits intro: le_SucI)
qed simp

lemma scan_quoted_rest_le: "length (fst (snd (scan_quoted s))) \<le> length s"
  using scan_quoted_length [of s] by (cases "scan_quoted s") auto

lemma scan_unquoted_rest_less:
  "snd (snd (scan_unquoted s)) \<noteq> EndEof \<Longrightarrow> length (fst (snd (scan_unquoted s))) < length s"
  using scan_unquoted_length [of s] by (cases "scan_unquoted s") auto

termination dsv_lex
proof (relation "measure (case_sum (\<lambda>s. 2 * length s + 1)
           (case_sum (\<lambda>q. 2 * length (fst (snd q)) + 2)
              (\<lambda>q. if snd (snd q) = EndEof then 0 else 2 * length (fst (snd q)) + 2)))", simp_all)
  fix s :: string
  assume "s \<noteq> [] \<and> hd s = QUOTE"
  then show "Suc (2 * length (fst (snd (scan_quoted (tl s))))) < 2 * length s"
    using scan_quoted_rest_le [of "tl s"] by (cases s) auto
next
  fix s :: string
  show "snd (snd (scan_unquoted s)) \<noteq> EndEof \<longrightarrow>
        Suc (2 * length (fst (snd (scan_unquoted s)))) < 2 * length s"
    using scan_unquoted_rest_less [of s] by auto
next
  fix r :: string
  show "2 * length (skip_lf (tl r)) < Suc (2 * length r)"
    using skip_lf_length [of "tl r"] by auto
qed

declare dsv_lex.simps [simp del]

subsection \<open>Formatting then parsing gives the rows back\<close>

lemma special_chars_distinct [simp]:
  "LF \<noteq> CR" "LF \<noteq> QUOTE" "LF \<noteq> COMMA" "CR \<noteq> LF" "CR \<noteq> QUOTE" "CR \<noteq> COMMA"
  "QUOTE \<noteq> LF" "QUOTE \<noteq> CR" "QUOTE \<noteq> COMMA" "COMMA \<noteq> LF" "COMMA \<noteq> CR" "COMMA \<noteq> QUOTE"
  by (simp_all add: LF_def CR_def QUOTE_def COMMA_def)

lemma needs_quote_Cons:
  "needs_quote (c # cs) \<longleftrightarrow> c = QUOTE \<or> c = COMMA \<or> c = LF \<or> c = CR \<or> needs_quote cs"
  by (auto simp: needs_quote_def)

lemma needs_quote_Nil [simp]: "\<not> needs_quote []"
  by (simp add: needs_quote_def)

lemma scan_unquoted_plain:
  "\<not> needs_quote f \<Longrightarrow>
   scan_unquoted (f @ s) = (case scan_unquoted s of (g, r, e) \<Rightarrow> (f @ g, r, e))"
  by (induction f) (auto simp: needs_quote_Cons split: prod.splits)

lemma scan_quoted_escaped:
  "s = [] \<or> hd s \<noteq> QUOTE \<Longrightarrow> scan_quoted (escape_quotes f @ QUOTE # s) = (f, s, True)"
  by (induction f) (auto simp: neq_Nil_conv split: list.splits)

lemma hd_format_value:
  "format_value f @ s \<noteq> [] \<Longrightarrow> hd (format_value f @ s) = QUOTE \<longleftrightarrow> needs_quote f \<or> (f = [] \<and> hd s = QUOTE)"
  by (cases f) (auto simp: format_value_def needs_quote_Cons)

lemma dsv_lex_format_value_delim:
  assumes "d = COMMA \<or> d = LF"
  shows "dsv_lex (format_value f @ d # t) =
           Field f # (if d = LF then EOL # dsv_lex t else dsv_lex t)"
proof (cases "needs_quote f")
  case True
  then show ?thesis
    using assms scan_quoted_escaped [of "d # t" f]
    by (subst dsv_lex.simps) (auto simp: format_value_def)
next
  case False
  then show ?thesis
    using assms scan_unquoted_plain [of f "d # t"] hd_format_value [of f "d # t"]
    by (subst dsv_lex.simps) (auto simp: format_value_def)
qed

lemma dsv_lex_format_value_end: "dsv_lex (format_value f) = [Field f]"
proof (cases "needs_quote f")
  case True
  then show ?thesis
    using scan_quoted_escaped [of "[]" f]
    by (subst dsv_lex.simps) (simp add: format_value_def)
next
  case False
  then show ?thesis
    using scan_unquoted_plain [of f "[]"] hd_format_value [of f "[]"]
    by (subst dsv_lex.simps) (auto simp: format_value_def)
qed

lemma format_row_Cons:
  "r \<noteq> [] \<Longrightarrow> format_row (x # r) = format_value x @ COMMA # format_row r"
  by (cases r) (simp_all add: format_row_def)

lemma dsv_lex_format_row:
  "r \<noteq> [] \<Longrightarrow> dsv_lex (format_row r @ LF # t) = map Field r @ EOL # dsv_lex t"
  "r \<noteq> [] \<Longrightarrow> dsv_lex (format_row r) = map Field r"
proof (induction r)
  case (Cons x r)
  { case 1 show ?case
      using Cons.IH dsv_lex_format_value_delim [of COMMA x] dsv_lex_format_value_delim [of LF x]
      by (cases "r = []") (simp_all add: format_row_Cons, simp add: format_row_def) }
  { case 2 show ?case
      using Cons.IH dsv_lex_format_value_delim [of COMMA x]
      by (cases "r = []") (simp_all add: format_row_Cons, simp add: format_row_def dsv_lex_format_value_end) }
qed simp_all

lemma dsv_row_fields:
  "dsv_row acc (map Field r @ EOL # ts) = (acc @ r) # dsv_rows ts"
  "dsv_row acc (map Field r) = [acc @ r]"
  by (induction r arbitrary: acc) simp_all

lemma dsv_rows_fields:
  "r \<noteq> [] \<Longrightarrow> dsv_rows (map Field r @ EOL # ts) = r # dsv_rows ts"
  "r \<noteq> [] \<Longrightarrow> dsv_rows (map Field r) = [r]"
  by (cases r; simp add: dsv_row_fields)+

lemma csv_format_rows_Cons:
  "rs \<noteq> [] \<Longrightarrow> csv_format_rows (r # rs) = format_row r @ LF # csv_format_rows rs"
  by (cases rs) (simp_all add: csv_format_rows_def)

lemma dsv_rows_lex_format:
  "rows \<noteq> [] \<Longrightarrow> [] \<notin> set rows \<Longrightarrow> dsv_rows (dsv_lex (csv_format_rows rows)) = rows"
proof (induction rows)
  case (Cons r rs)
  then have "r \<noteq> []" by auto
  with Cons show ?case
    by (cases "rs = []")
       (simp_all add: csv_format_rows_Cons dsv_lex_format_row dsv_rows_fields,
        simp add: csv_format_rows_def dsv_lex_format_row dsv_rows_fields)
qed simp

lemma dsv_trim_id: "s \<noteq> [] \<Longrightarrow> last s \<noteq> LF \<Longrightarrow> last s \<noteq> CR \<Longrightarrow> dsv_trim s = s"
  by (simp add: dsv_trim_def)

lemma dsv_trim_LF2: "dsv_trim (s @ [LF, LF]) = s @ [LF]"
  by (simp add: dsv_trim_def Let_def butlast_append)

lemma format_value_last:
  "f \<noteq> [] \<Longrightarrow> format_value f \<noteq> [] \<and> last (format_value f) \<noteq> LF \<and> last (format_value f) \<noteq> CR"
  using last_in_set [of f] by (auto simp: format_value_def needs_quote_def)

lemma format_row_last:
  "r \<noteq> [] \<Longrightarrow> r \<noteq> [[]] \<Longrightarrow>
   format_row r \<noteq> [] \<and> last (format_row r) \<noteq> LF \<and> last (format_row r) \<noteq> CR"
proof (induction r)
  case (Cons x r)
  show ?case
  proof (cases "r = []")
    case True
    with Cons.prems show ?thesis using format_value_last [of x] by (simp add: format_row_def)
  next
    case False
    show ?thesis
    proof (cases "r = [[]]")
      case True
      then show ?thesis by (simp add: format_row_def format_value_def)
    next
      case False
      with \<open>r \<noteq> []\<close> Cons.IH show ?thesis by (simp add: format_row_Cons)
    qed
  qed
qed simp

lemma csv_format_rows_last:
  "rows \<noteq> [] \<Longrightarrow> [] \<notin> set rows \<Longrightarrow> last rows \<noteq> [[]] \<Longrightarrow>
   csv_format_rows rows \<noteq> [] \<and> last (csv_format_rows rows) \<noteq> LF \<and> last (csv_format_rows rows) \<noteq> CR"
proof (induction rows)
  case (Cons r rs)
  show ?case
  proof (cases "rs = []")
    case True
    with Cons.prems show ?thesis using format_row_last [of r] by (simp add: csv_format_rows_def)
  next
    case False
    with Cons show ?thesis by (simp add: csv_format_rows_Cons)
  qed
qed simp

lemma dsv_rows_lex_format_app:
  "rows \<noteq> [] \<Longrightarrow> [] \<notin> set rows \<Longrightarrow>
   dsv_rows (dsv_lex (csv_format_rows rows @ LF # t)) = rows @ dsv_rows (dsv_lex t)"
proof (induction rows)
  case (Cons r rs)
  then have "r \<noteq> []" by auto
  with Cons show ?case
    by (cases "rs = []")
       (simp_all add: csv_format_rows_Cons dsv_lex_format_row dsv_rows_fields,
        simp add: csv_format_rows_def dsv_lex_format_row dsv_rows_fields)
qed simp

lemma dsv_lex_Nil: "dsv_lex [] = [Field []]"
  by (subst dsv_lex.simps) simp

lemma object_row_prefix:
  "distinct cols \<Longrightarrow> n \<le> length cols \<Longrightarrow>
   foldl (\<lambda>obj i. alist_set obj (cols ! i) (JStr (if i < length cells then cells ! i else [])))
     [] [0..<n] =
   map (\<lambda>i. (cols ! i, JStr (if i < length cells then cells ! i else []))) [0..<n]"
proof (induction n)
  case (Suc n)
  have "cols ! n \<notin> set (map (\<lambda>i. cols ! i) [0..<n])"
    using Suc.prems by (auto simp: nth_eq_iff_index_eq)
  with Suc show ?case by (simp add: alist_set_new comp_def)
qed simp

lemma object_row_distinct:
  "distinct cols \<Longrightarrow>
   object_row cols cells = map (\<lambda>i. (cols ! i, JStr (if i < length cells then cells ! i else []))) [0..<length cols]"
  by (simp add: object_row_def object_row_prefix)

lemma object_row_zip:
  "distinct cols \<Longrightarrow> length cells = length cols \<Longrightarrow> object_row cols cells = zip cols (map JStr cells)"
  unfolding object_row_distinct by (rule nth_equalityI) simp_all

lemma dsv_tokens_format:
  "rows \<noteq> [] \<Longrightarrow> [] \<notin> set rows \<Longrightarrow> last rows \<noteq> [[]] \<Longrightarrow>
   dsv_tokens (csv_format_rows rows) = dsv_lex (csv_format_rows rows)"
  using csv_format_rows_last [of rows] by (simp add: dsv_tokens_def dsv_trim_id)

lemma equal_length_rows_nonempty:
  "cols \<noteq> [] \<Longrightarrow> \<forall>r\<in>set rs. length r = length cols \<Longrightarrow> [] \<notin> set (cols # rs)"
  by auto

lemma csv_parse_format:
  assumes "distinct cols" "cols \<noteq> []" "\<forall>r\<in>set rs. length r = length cols" "last (cols # rs) \<noteq> [[]]"
  shows "csv_parse (csv_format_rows (cols # rs)) = map (\<lambda>r. zip cols (map JStr r)) rs"
proof -
  have "[] \<notin> set (cols # rs)" using assms(2,3) by (rule equal_length_rows_nonempty)
  then have "dsv_rows (dsv_tokens (csv_format_rows (cols # rs))) = cols # rs"
    using assms(4) by (simp add: dsv_tokens_format dsv_rows_lex_format)
  then show ?thesis using assms(1,3) by (simp add: csv_parse_def object_row_zip)
qed

lemma csv_parse_trailing_blank:
  assumes "distinct cols" "cols \<noteq> []" "\<forall>r\<in>set rs. length r = length cols"
  shows "csv_parse (csv_format_rows (cols # rs) @ [LF, LF]) =
           map (\<lambda>r. zip cols (map JStr r)) rs @ [map (\<lambda>c. (c, JStr [])) cols]"
proof -
  have "[] \<notin> set (cols # rs)" using assms(2,3) by (rule equal_length_rows_nonempty)
  then have "dsv_rows (dsv_tokens (csv_format_rows (cols # rs) @ [LF, LF])) = cols # rs @ [[[]]]"
    by (simp add: dsv_tokens_def dsv_trim_LF2 dsv_rows_lex_format_app dsv_lex_Nil)
  moreover have "object_row cols [[]] = map (\<lambda>c. (c, JStr [])) cols"
    unfolding object_row_distinct [OF assms(1)] by (rule nth_equalityI) auto
  ultimately show ?thesis using assms(1,3) by (simp add: csv_parse_def object_row_zip)
qed

lemma csv_parse_wf:
  "dsv_rows (dsv_tokens text) = cols # rows \<Longrightarrow> distinct cols \<Longrightarrow> csv_rows_wf cols (csv_parse text)"
  by (auto simp: csv_parse_def csv_rows_wf_def object_row_distinct comp_def map_nth)

end
