(* ===== verification/Chart.thy ===== *)
theory Chart
  imports Dsv
begin

text \<open>
  \<open>src/script.js\<close>, the whole program: the callback that \<open>d3.csv(...).then\<close> runs
  on the loaded rows (lines 2-123). It coerces every \<open>Count\<close> to a number (lines
  4-6), sorts the rows by \<open>b.Count - a.Count\<close> (lines 9-11), keeps the first ten
  (line 14), fixes the layout (lines 17-19), builds the two scales (lines 30-37) and
  appends to the \<open>#chart\<close> element one \<open>svg\<close> holding a group with the two axes,
  the two gridline groups, one bar and one label per kept row and three texts
  (lines 22-27, 40-122). Each definition is one statement or one method chain of the
  source; the page is the children of \<open>#chart\<close>. \<open>run_page\<close> is the whole
  script (lines 1-2 and the callback): the fetched CSV text goes through
  \<open>d3_csv\<close> of theory Dsv and the result through \<open>run_script\<close>.
\<close>

subsection \<open>Row properties\<close>

definition get_field :: "row \<Rightarrow> string \<Rightarrow> jsval" where
  "get_field d f = alist_get d f JUndefined"

definition set_field :: "row \<Rightarrow> string \<Rightarrow> jsval \<Rightarrow> row" where
  "set_field d f v = alist_set d f v"

text \<open>\<open>d.Count\<close> read as a number, as the operators \<open>-\<close> and \<open>+\<close> read it.\<close>

definition count_of :: "row \<Rightarrow> jsnum" where
  "count_of d = to_number (get_field d ''Count'')"

text \<open>The rows whose counts are all numbers (no NaN): the comparator is consistent on them.\<close>

definition nan_free :: "row list \<Rightarrow> bool" where
  "nan_free ds \<longleftrightarrow> (\<forall>d\<in>set ds. count_of d \<noteq> JNaN)"

subsection \<open>Lines 4-14: coerce, sort, slice\<close>

definition coerce_row :: "row \<Rightarrow> row" where
  "coerce_row d = set_field d ''Count'' (JNumber (to_number (get_field d ''Count'')))"

primrec coerce_counts :: "row list \<Rightarrow> row list" where
  "coerce_counts [] = []"
| "coerce_counts (d # ds) = coerce_row d # coerce_counts ds"

definition count_cmp :: "row comparator" where
  "count_cmp a b = js_sub (to_number (get_field b ''Count'')) (to_number (get_field a ''Count''))"

definition sort_by_count :: "row list \<Rightarrow> row list" where
  "sort_by_count data = js_array_sort count_cmp data"

definition top_reasons :: "row list \<Rightarrow> row list" where
  "top_reasons data = js_slice 0 10 data"

definition prepare_data :: "row list \<Rightarrow> row list" where
  "prepare_data data = top_reasons (sort_by_count (coerce_counts data))"

subsection \<open>Lines 17-19: layout\<close>

record margins =
  mtop :: int
  mright :: int
  mbottom :: int
  mleft :: int

definition margin :: margins where
  "margin = \<lparr>mtop = 70, mright = 50, mbottom = 50, mleft = 200\<rparr>"

definition width :: int where
  "width = 800 - mleft margin - mright margin"

definition height :: int where
  "height = 400 - mtop margin - mbottom margin"

subsection \<open>Lines 30-37: the scales\<close>

definition x_scale :: "row list \<Rightarrow> linear_scale" where
  "x_scale rows =
     linear_set_range (JNum 0) (JNum (of_int width))
       (linear_set_domain (JNumber (JNum 0)) (d3_max (\<lambda>d. get_field d ''Count'') rows)
         d3_scale_linear)"

definition y_scale :: "row list \<Rightarrow> band_scale" where
  "y_scale rows =
     band_set_padding (1 / 10)
       (band_set_range 0 (of_int height)
         (band_set_domain (map (\<lambda>d. get_field d ''reason'') rows) d3_scale_band))"

subsection \<open>Lines 22-27 and 40-122: the drawing\<close>

definition translate :: "int \<Rightarrow> int \<Rightarrow> jsval" where
  "translate a b = JStr (''translate('' @ int_to_js_string a @ '','' @ int_to_js_string b @ '')'')"

definition num :: "rat \<Rightarrow> jsval" where
  "num q = JNumber (JNum q)"

definition font :: "string \<Rightarrow> node \<Rightarrow> node" where
  "font sz n = set_style ''font-size'' sz (set_style ''font-family'' ''Roboto'' n)"

definition x_axis_group :: "linear_scale \<Rightarrow> node" where
  "x_axis_group x =
     call_axis (d3_axis AxisBottom (LinearScale x))
       [(''font-family'', ''Roboto''), (''font-size'', ''1.2em'')] []
       (set_attr ''transform'' (translate 0 height) (set_attr ''class'' (JStr ''x-axis'') (elem ''g'')))"

definition y_axis_group :: "band_scale \<Rightarrow> node" where
  "y_axis_group y =
     call_axis (d3_axis AxisLeft (BandScale y))
       [(''font-family'', ''Roboto''), (''font-size'', ''1.2em'')] []
       (set_attr ''class'' (JStr ''y-axis'') (elem ''g''))"

definition x_grid :: "linear_scale \<Rightarrow> node" where
  "x_grid x =
     call_axis
       (axis_tick_format (JStr '''') (axis_tick_size (- of_int height) (d3_axis AxisBottom (LinearScale x))))
       [] [(''stroke'', JStr ''#ddd'')]
       (set_attr ''transform'' (translate 0 height) (set_attr ''class'' (JStr ''grid'') (elem ''g'')))"

definition y_grid :: "band_scale \<Rightarrow> node" where
  "y_grid y =
     call_axis
       (axis_tick_format (JStr '''') (axis_tick_size (- of_int width) (d3_axis AxisLeft (BandScale y))))
       [] [(''stroke'', JStr ''#ddd'')]
       (set_attr ''class'' (JStr ''grid'') (elem ''g''))"

definition bar_node :: "linear_scale \<Rightarrow> band_scale \<Rightarrow> row \<Rightarrow> node" where
  "bar_node x y d =
     set_attr ''fill'' (JStr ''#34D1BF'')
       (set_attr ''height'' (num (bandwidth y))
         (set_attr ''width'' (linear_apply x (get_field d ''Count''))
           (set_attr ''y'' (band_apply y (get_field d ''reason''))
             (set_attr ''class'' (JStr ''bar'') (elem ''rect'')))))"

definition label_node :: "linear_scale \<Rightarrow> band_scale \<Rightarrow> row \<Rightarrow> node" where
  "label_node x y d =
     set_text (get_field d ''Count'')
       (font ''0.8em''
         (set_attr ''dy'' (JStr ''.35em'')
           (set_attr ''dx'' (JStr ''3'')
             (set_attr ''y''
                (JNumber (js_add (to_number (band_apply y (get_field d ''reason'')))
                                 (JNum (bandwidth y / 2))))
               (set_attr ''x'' (linear_apply x (get_field d ''Count''))
                 (set_attr ''class'' (JStr ''label'') (elem ''text'')))))))"

definition headline :: node where
  "headline =
     set_text (JStr ''What are Bostonians calling 311 for?'')
       (set_style ''fill'' ''#D1345B'' (set_style ''font-weight'' ''bold''
         (font ''2em'' (set_attr ''y'' (num (- 40)) (set_attr ''x'' (num 0) (elem ''text''))))))"

definition subheadline :: node where
  "subheadline =
     set_text (JStr ''Top 10 reasons for 311 calls in the past year'')
       (set_style ''fill'' ''#777''
         (font ''1em'' (set_attr ''y'' (num (- 20)) (set_attr ''x'' (num 0) (elem ''text'')))))"

definition source_note :: node where
  "source_note =
     set_text (JStr ''Source: Analyze Boston (https://data.boston.gov/dataset/311-service-requests)'')
       (set_style ''fill'' ''#777''
         (font ''0.8em''
           (set_attr ''y'' (num (of_int (height + mtop margin - 10)))
             (set_attr ''x'' (num 0) (elem ''text'')))))"

definition chart_group :: "row list \<Rightarrow> node" where
  "chart_group rows =
     (let x = x_scale rows; y = y_scale rows in
      foldl (\<lambda>g c. append_child c g)
        (set_attr ''transform'' (translate (mleft margin) (mtop margin)) (elem ''g''))
        ([x_axis_group x, y_axis_group y, x_grid x, y_grid y] @
         map (bar_node x y) rows @ map (label_node x y) rows @
         [headline, subheadline, source_note]))"

definition svg_node :: "row list \<Rightarrow> node" where
  "svg_node rows =
     append_child (chart_group rows)
       (set_attr ''height'' (num (of_int (height + mtop margin + mbottom margin)))
         (set_attr ''width'' (num (of_int (width + mleft margin + mright margin))) (elem ''svg'')))"

definition on_data :: "row list \<Rightarrow> node" where
  "on_data data = svg_node (prepare_data data)"

subsection \<open>The page: \<open>d3.csv(...).then(...)\<close>\<close>

text \<open>
  The page holds the children of the element with id \<open>chart\<close> (\<open>None\<close> when the
  page has no such element: \<open>d3.select\<close> then selects nothing and every append is a
  no-op). A failed load rejects the promise, which nothing handles: the page is left
  as it was and the rejection is reported.
\<close>

record page =
  chart_elem :: "node list option"

definition run_script :: "load_error + row list \<Rightarrow> page \<Rightarrow> page \<times> load_error option" where
  "run_script r p =
     (case r of
        Inl e \<Rightarrow> (p, Some e)
      | Inr data \<Rightarrow>
          (case chart_elem p of
             None \<Rightarrow> (p, None)
           | Some cs \<Rightarrow> (p\<lparr>chart_elem := Some (cs @ [on_data data])\<rparr>, None)))"

text \<open>Lines 1-2: \<open>d3.csv("boston_311_2023_by_reason.csv").then(callback)\<close>, given the
  outcome of fetching the file: an error, or its text.\<close>

definition run_page :: "load_error + string \<Rightarrow> page \<Rightarrow> page \<times> load_error option" where
  "run_page fetched p = run_script (d3_csv fetched) p"

subsection \<open>Coercion\<close>

lemma get_field_coerce_row [simp]:
  "get_field (coerce_row d) f = (if f = ''Count'' then JNumber (count_of d) else get_field d f)"
  by (simp add: coerce_row_def get_field_def set_field_def count_of_def)

lemma count_of_coerce_row [simp]: "count_of (coerce_row d) = count_of d"
  by (simp add: count_of_def)

lemma coerce_counts_map: "coerce_counts ds = map coerce_row ds"
  by (induction ds) auto

lemma length_coerce_counts [simp]: "length (coerce_counts ds) = length ds"
  by (simp add: coerce_counts_map)

lemma coerce_row_columns:
  "''Count'' \<in> set (map fst d) \<Longrightarrow> map fst (coerce_row d) = map fst d"
  by (simp add: coerce_row_def set_field_def map_fst_alist_set)

lemma set_coerce_counts: "set (coerce_counts ds) = coerce_row ` set ds"
  by (simp add: coerce_counts_map)

subsection \<open>The comparator is consistent with the descending count order\<close>

lemma sort_lt_count_cmp:
  "count_of a \<noteq> JNaN \<Longrightarrow> count_of b \<noteq> JNaN \<Longrightarrow>
   sort_lt count_cmp a b \<longleftrightarrow> desc_key (count_of a) < desc_key (count_of b)"
  by (simp add: sort_lt_iff count_cmp_def js_sub_neg_iff js_num_less_desc_key
      flip: count_of_def)

lemma count_cmp_consistent:
  "nan_free ds \<Longrightarrow> cmp_consistent count_cmp (\<lambda>d. desc_key (count_of d)) ds"
  by (simp add: nan_free_def cmp_consistent_def sort_lt_count_cmp)

lemma nan_free_coerce_counts [simp]: "nan_free (coerce_counts ds) = nan_free ds"
  by (simp add: nan_free_def set_coerce_counts)

lemma sort_by_count_sort_key:
  "nan_free ds \<Longrightarrow> sort_by_count ds = sort_key (\<lambda>d. desc_key (count_of d)) ds"
  by (simp add: sort_by_count_def count_cmp_consistent js_array_sort_sort_key)

lemma merge_sort_count_sort_key:
  "nan_free ds \<Longrightarrow> merge_sort count_cmp ds = sort_key (\<lambda>d. desc_key (count_of d)) ds"
  by (simp add: count_cmp_consistent merge_sort_sort_key)

lemma mset_js_array_sort [simp]: "mset (js_array_sort cmp xs) = mset xs"
  by (simp add: js_array_sort_def insertion_sort_def mset_insertion_sort_from)

lemma length_js_array_sort [simp]: "length (js_array_sort cmp xs) = length xs"
  by (metis mset_js_array_sort size_mset)

lemma prepare_data_take: "prepare_data ds = take 10 (sort_by_count (coerce_counts ds))"
  by (simp add: prepare_data_def top_reasons_def)

lemma prepare_data_sort_key:
  "nan_free ds \<Longrightarrow>
   prepare_data ds = take 10 (sort_key (\<lambda>d. desc_key (count_of d)) (coerce_counts ds))"
  by (simp add: prepare_data_take sort_by_count_sort_key)

lemma set_js_array_sort [simp]: "set (js_array_sort cmp xs) = set xs"
  by (metis mset_js_array_sort set_mset_mset)

lemma set_prepare_data: "set (prepare_data rows) \<subseteq> set (coerce_counts rows)"
  by (auto simp: prepare_data_take sort_by_count_def dest: in_set_takeD)

lemma desc_sorted_not_less:
  assumes "sorted (map (\<lambda>d. desc_key (count_of d)) ys)" "nan_free ys"
  shows "sorted_wrt (\<lambda>a b. \<not> js_num_less (count_of a) (count_of b)) ys"
proof -
  have "sorted_wrt (\<lambda>a b. desc_key (count_of a) \<le> desc_key (count_of b)) ys"
    using assms(1) by (simp add: sorted_map)
  then show ?thesis
  proof (rule sorted_wrt_mono_rel [rotated])
    fix a b
    assume "a \<in> set ys" "b \<in> set ys" "desc_key (count_of a) \<le> desc_key (count_of b)"
    then show "\<not> js_num_less (count_of a) (count_of b)"
      using assms(2) by (auto simp: nan_free_def js_num_less_desc_key)
  qed
qed

subsection \<open>Structure of the drawing\<close>

lemma chart_group_children:
  "node_children (chart_group rows) =
     [x_axis_group (x_scale rows), y_axis_group (y_scale rows), x_grid (x_scale rows),
      y_grid (y_scale rows)] @
     map (bar_node (x_scale rows) (y_scale rows)) rows @
     map (label_node (x_scale rows) (y_scale rows)) rows @
     [headline, subheadline, source_note]"
  by (simp add: chart_group_def elem_def foldl_append_child Let_def)

lemma band_domain_y_scale:
  "band_domain (y_scale rows) = intern_domain_from [] (map (\<lambda>d. get_field d ''reason'') rows)"
  by (simp add: y_scale_def band_set_padding_def band_set_range_def band_set_domain_def)

subsection \<open>Attributes of bars and labels\<close>

lemma bar_node_attr:
  "node_attr (bar_node x y d) ''y'' = band_apply y (get_field d ''reason'')"
  "node_attr (bar_node x y d) ''width'' = linear_apply x (get_field d ''Count'')"
  by (simp_all add: bar_node_def elem_def)

lemma label_node_attr:
  "node_attr (label_node x y d) ''x'' = linear_apply x (get_field d ''Count'')"
  "node_children (label_node x y d) = [TextNode (get_field d ''Count'')]"
  by (simp_all add: label_node_def elem_def font_def)

lemma lin_range_x_scale: "lin_range (x_scale rows) = (JNum 0, JNum 550)"
  by (simp add: x_scale_def linear_set_range_def linear_set_domain_def width_def margin_def)

lemma intern_domain_replicate: "intern_domain_from [v] (replicate n v) = [v]"
  by (induction n) auto

lemma y_scale_single_band:
  assumes "rows \<noteq> []" "\<forall>d\<in>set rows. get_field d ''reason'' = v"
  shows "band_domain (y_scale rows) = [v]"
proof -
  have "map (\<lambda>d. get_field d ''reason'') rows = replicate (length rows) v"
    using assms(2) by (simp add: map_replicate_const cong: map_cong)
  moreover obtain n where "length rows = Suc n" using assms(1) by (cases rows) auto
  ultimately show ?thesis by (simp add: band_domain_y_scale intern_domain_replicate)
qed

lemma coerce_row_twice: "coerce_row (coerce_row d) = coerce_row d"
  by (simp add: coerce_row_def set_field_def get_field_def count_of_def)

lemma y_scale_params:
  "band_range (y_scale rows) = (0, 280)" "padding_inner (y_scale rows) = 1 / 10"
  "padding_outer (y_scale rows) = 1 / 10" "band_align (y_scale rows) = 1 / 2"
  by (simp_all add: y_scale_def band_set_padding_def band_set_range_def band_set_domain_def
      d3_scale_band_def height_def margin_def)

end
