(* ===== verification/Spec2Isabelle.thy ===== *)
theory Spec2Isabelle
  imports Chart
begin

text \<open>
  \<^bold>\<open>A verification library for src/script.js.\<close>

  \<^bold>\<open>The program.\<close> The repository's one source file, \<open>src/script.js\<close>, is a browser
  script. It asks d3 to fetch and parse a CSV file of Boston 311 request reasons
  (\<open>d3.csv(...).then\<close>, lines 1-2). In the callback it coerces every \<open>Count\<close> cell to a
  number (lines 4-6), sorts the rows with the comparator \<open>b.Count - a.Count\<close> (lines 9-11)
  and keeps the first ten (line 14). It then fixes margins and plot size (lines 17-19),
  builds a linear x scale over \<open>[0, max count]\<close> and a band y scale over the reasons
  (lines 30-37), and appends to \<open>#chart\<close> one svg (lines 22-27). The svg holds two axes,
  two gridline groups, one bar and one label per kept row, and three texts (lines
  40-122). Its parts talk through the rows: the sort reads what the coercion wrote, the
  scales read the kept rows, the bars and labels read the scales.

  \<^bold>\<open>The theories.\<close>
  \<^item> \<open>Prelude\<close>: named collections (\<open>js_eval\<close>, \<open>sort_facts\<close>); objects as association
    lists (\<open>alist_get\<close>, \<open>alist_set\<close>, with JavaScript's property order); the
    abstract specification of a stable sort, \<open>stable_sorted_perm\<close>, and its uniqueness.
  \<^item> \<open>Js_Value\<close>: the runtime values. Numbers are \<open>jsnum\<close> (exact rationals, the
    infinities, NaN) and values are \<open>jsval\<close>. It holds ECMAScript's StringToNumber
    (\<open>string_to_number\<close>: whitespace, sign, decimals, exponents, \<open>0x/0o/0b\<close>,
    \<open>Infinity\<close>), Number add, subtract, multiply and divide with their special cases,
    \<open>IsLessThan\<close>, and Number::toString on integers, with the print-parse round trip.
  \<^item> \<open>Array_Sort\<close>: \<open>Array.prototype.sort\<close> with SortCompare (NaN reads as +0), two
    engines (\<open>insertion_sort\<close>, the linear form of V8's binary insertion, and a stable
    \<open>merge_sort\<close>), both proved to be the stable sort by a key whenever the comparator
    is consistent with it; \<open>Array.prototype.slice\<close>.
  \<^item> \<open>D3\<close>: what the script calls in d3, modelled from its documented behaviour:
    \<open>d3.max\<close>, \<open>scaleLinear\<close> (normalize, interpolate, bimap, unknown), \<open>scaleBand\<close>
    (interning, rescale, bandwidth), axes as descriptors, and the DOM tree with
    \<open>selection.attr\<close> (undefined removes), \<open>style\<close>, \<open>text\<close>, \<open>append\<close>, \<open>call\<close>. It also
    holds the row objects of d3-dsv and their well-formedness \<open>csv_rows_wf\<close>.
  \<^item> \<open>Dsv\<close>: the CSV reader behind \<open>d3.csv\<close> (d3-dsv's \<open>csvParse\<close>), from its documented
    algorithm. \<open>dsv_trim\<close> drops one final LF and then one final CR. The tokenizer is
    \<open>dsv_lex\<close>, with \<open>lex_quoted\<close>/\<open>lex_unquoted\<close> for the two branches of
    \<open>token()\<close> and \<open>scan_quoted\<close>/\<open>scan_unquoted\<close> reading one field; its termination is
    proved by a measure. \<open>dsv_rows\<close> is \<open>parseRows\<close>, \<open>object_row\<close> is \<open>objectConverter\<close>,
    \<open>csv_parse\<close> is \<open>csvParse\<close>, and \<open>d3_csv\<close> is the promise of \<open>d3.csv\<close> given the
    fetch's outcome. \<open>csv_format_rows\<close> (d3's \<open>csvFormatRows\<close>) is there as the inverse the
    round trip is stated against.
  \<^item> \<open>Chart\<close>: the script itself, one definition per statement or method chain, named
    after it: \<open>coerce_row\<close>/\<open>coerce_counts\<close> (lines 4-6), \<open>count_cmp\<close>/\<open>sort_by_count\<close>
    (9-11), \<open>top_reasons\<close> (14), \<open>prepare_data\<close> (4-14), \<open>margin\<close>/\<open>width\<close>/\<open>height\<close>
    (17-19), \<open>x_scale\<close>/\<open>y_scale\<close> (30-37), \<open>svg_node\<close>/\<open>chart_group\<close> (22-27),
    \<open>x_axis_group\<close>, \<open>y_axis_group\<close>, \<open>x_grid\<close>, \<open>y_grid\<close> (44-72), \<open>bar_node\<close>
    (75-82), \<open>label_node\<close> (85-95), \<open>headline\<close>, \<open>subheadline\<close>, \<open>source_note\<close>
    (98-122), \<open>on_data\<close> (the callback), \<open>run_script\<close> (the promise and the page) and
    \<open>run_page\<close> (lines 1-2: the fetched text through \<open>d3_csv\<close> into \<open>run_script\<close>).
    The page state is the record \<open>page\<close>, the children of \<open>#chart\<close>.
  \<^item> \<open>Spec2Isabelle\<close> (this theory): concrete inputs and the properties that span the
    components, claims C1 to C30.

  \<^bold>\<open>What the lemmas show.\<close> Selection (C1-C8): the program keeps \<open>min(m, 10)\<close> rows.
  On NaN-free data they are sorted, dominate the rest, keep equal counts in load order,
  and equal the first ten of any stable descending sort (refinement). The result does not
  depend on the sort engine. With a NaN count the engines disagree and the top row can be
  wrong (C7). The x domain's upper bound is the largest kept count. Scales and bars
  (C9-C16): band completeness for distinct reasons; what repeated and missing reasons do;
  bar widths proportional to the counts; one bar per kept row in order; the
  specification's scenario; half-width bars when every count is 0; no width for NaN
  counts. Coercion (C17-C20, C22-C23): blank cells give 0; digit cells give their value;
  the label round trip; coercion is idempotent and keeps the columns. Layout and page
  (C21, C24-C25): bands stay inside the plot and do not overlap; re-running appends an
  identical chart; a failed load changes nothing; the fixed frame. Loading (C26-C30):
  the cells of a CSV file written by \<open>csvFormatRows\<close> read back through the row objects
  (round trip); a well-formed \<open>Reason,Count\<close> file draws the chart of its rows; a
  trailing blank line adds a row with an empty reason and count 0; the rows the callback
  receives have the header's columns, strings in each, and a number in \<open>Count\<close> after
  coercion; the promise rejects only on a failed fetch, and an unterminated quote is
  read leniently.

  \<^bold>\<open>Bounds and fuel.\<close> No fuel: every loop of the script (\<open>forEach\<close>, \<open>sort\<close>,
  \<open>slice\<close>, \<open>map\<close>, the scales' loops) is structural recursion over a list or a \<open>fun\<close>
  with a proved termination (\<open>merge_sort\<close> by the length, the CSV tokenizer
  \<open>dsv_lex\<close> by twice the length of the text left, each call reading at least one
  character). Numbers are exact
  rationals. Rounding to the nearest double is modelled only at the overflow bound
  \<open>2^1024 - 2^970\<close>, beyond which a result becomes an infinity. The claims' values (counts
  of a few hundred thousand, the 800 by 400 frame) lie far inside the range where doubles
  represent them exactly, so nothing proved depends on the rounding left out.

  \<^bold>\<open>Not modelled.\<close> The tick marks d3-axis generates inside the axis and gridline
  groups (an \<open>AxisContent\<close> node records the axis and the styles applied to its
  ticks). The serialisation of attribute values to strings by the browser. Signed zero,
  and double rounding below the overflow bound. Multi-byte Unicode whitespace in
  StringToNumber. The network request of \<open>d3.csv\<close> (d3-fetch's \<open>fetch\<close> and
  \<open>response.text()\<close>): its outcome, an error or the file's text, is the input of
  \<open>run_page\<close>. Column names that are special object keys (\<open>__proto__\<close>). The CSS of the
  page and the content of the CSV file, which are not part of the sources.
\<close>

section \<open>Concrete inputs\<close>

text \<open>The rows of the specification's scenario, as d3-dsv delivers them (strings).\<close>

definition scenario_rows :: "row list" where
  "scenario_rows =
     [[(''reason'', JStr ''Pothole''), (''Count'', JStr ''50'')],
      [(''reason'', JStr ''Noise''), (''Count'', JStr ''120'')],
      [(''reason'', JStr ''Trash''), (''Count'', JStr ''80'')]]"

text \<open>Three rows, one of them with a non-numeric count.\<close>

definition nan_rows :: "row list" where
  "nan_rows =
     [[(''reason'', JStr ''A''), (''Count'', JStr ''3'')],
      [(''reason'', JStr ''B''), (''Count'', JStr ''N/A'')],
      [(''reason'', JStr ''C''), (''Count'', JStr ''5'')]]"

text \<open>Eleven rows with the counts 1 to 11.\<close>

definition many_rows :: "row list" where
  "many_rows =
     map (\<lambda>i. [(''reason'', JStr (''R'' @ nat_digits i)), (''Count'', JStr (nat_digits i))]) [1..<12]"

text \<open>Rows with a repeated reason; rows whose header spells \<open>Reason\<close>; rows whose counts are
  zero (one of them an empty cell).\<close>

definition dup_rows :: "row list" where
  "dup_rows =
     [[(''reason'', JStr ''Noise''), (''Count'', JStr ''5'')],
      [(''reason'', JStr ''Noise''), (''Count'', JStr ''3'')]]"

definition upper_rows :: "row list" where
  "upper_rows =
     [[(''Reason'', JStr ''Noise''), (''Count'', JStr ''120'')],
      [(''Reason'', JStr ''Trash''), (''Count'', JStr ''80'')]]"

definition zero_rows :: "row list" where
  "zero_rows =
     [[(''reason'', JStr ''A''), (''Count'', JStr ''0'')],
      [(''reason'', JStr ''B''), (''Count'', JStr '''')]]"

section \<open>Selecting the top ten (lines 4-14)\<close>

text \<open>C1: the program keeps \<open>min(m, 10)\<close> of \<open>m\<close> rows: no padding, no loss.\<close>

theorem top_reasons_length: "length (prepare_data rows) = min (length rows) 10"
  by (simp add: prepare_data_take sort_by_count_def min.commute)

text \<open>C2: when every count is a number, the kept rows are in descending order of count.\<close>

theorem top_reasons_sorted_desc:
  assumes "nan_free rows"
  shows "sorted_wrt (\<lambda>a b. \<not> js_num_less (count_of a) (count_of b)) (prepare_data rows)"
proof (rule desc_sorted_not_less)
  show "sorted (map (\<lambda>d. desc_key (count_of d)) (prepare_data rows))"
    using assms by (simp add: prepare_data_sort_key sorted_wrt_take flip: take_map)
  have "nan_free (coerce_counts rows)" using assms by simp
  then show "nan_free (prepare_data rows)"
    using set_prepare_data by (auto simp: nan_free_def)
qed

theorem top_reasons_sorted_desc_witness:
  "nan_free scenario_rows \<and>
   sorted_wrt (\<lambda>a b. \<not> js_num_less (count_of a) (count_of b)) (prepare_data scenario_rows)"
proof -
  have h: "nan_free scenario_rows" by code_simp
  show ?thesis using h top_reasons_sorted_desc [OF h] by simp
qed

text \<open>C3: when every count is a number, every kept row counts at least as much as every
  row left out.\<close>
theorem top_reasons_dominate:
  assumes "nan_free rows" "a \<in> set (prepare_data rows)"
    and "b \<in># mset (coerce_counts rows) - mset (prepare_data rows)"
  shows "\<not> js_num_less (count_of a) (count_of b)"
proof -
  let ?k = "\<lambda>d. desc_key (count_of d)"
  let ?s = "sort_key ?k (coerce_counts rows)"
  have p: "prepare_data rows = take 10 ?s" using assms(1) by (rule prepare_data_sort_key)
  have "mset (coerce_counts rows) - mset (take 10 ?s) = mset (drop 10 ?s)"
    by (metis add_diff_cancel_left' append_take_drop_id mset_append mset_sort)
  then have b: "b \<in> set (drop 10 ?s)" using assms(3) p by simp
  have "?k a \<le> ?k b"
    using sorted_take_drop_le [of ?k ?s] b assms(2) p by simp
  moreover have "a \<in> set ?s" "b \<in> set ?s"
    using assms(2) p b by (auto dest: in_set_takeD in_set_dropD)
  then have "count_of a \<noteq> JNaN" "count_of b \<noteq> JNaN"
    using assms(1) by (auto simp: nan_free_def set_coerce_counts)
  ultimately show ?thesis by (simp add: js_num_less_desc_key not_less)
qed

theorem top_reasons_dominate_witness:
  "nan_free many_rows \<and>
   coerce_row [(''reason'', JStr ''R11''), (''Count'', JStr ''11'')] \<in> set (prepare_data many_rows) \<and>
   coerce_row [(''reason'', JStr ''R1''), (''Count'', JStr ''1'')] \<in>#
     mset (coerce_counts many_rows) - mset (prepare_data many_rows) \<and>
   \<not> js_num_less (count_of (coerce_row [(''reason'', JStr ''R11''), (''Count'', JStr ''11'')]))
                   (count_of (coerce_row [(''reason'', JStr ''R1''), (''Count'', JStr ''1'')]))"
proof -
  have h1: "nan_free many_rows" by code_simp
  have h2: "coerce_row [(''reason'', JStr ''R11''), (''Count'', JStr ''11'')] \<in> set (prepare_data many_rows)"
    by code_simp
  have h3: "coerce_row [(''reason'', JStr ''R1''), (''Count'', JStr ''1'')] \<in>#
     mset (coerce_counts many_rows) - mset (prepare_data many_rows)"
    by code_simp
  show ?thesis using h1 h2 h3 top_reasons_dominate [OF h1 h2 h3] by blast
qed

text \<open>C4: stability: rows with equal counts keep their load order through the sort.\<close>
theorem sort_by_count_stable:
  assumes "nan_free rows"
  shows "filter (\<lambda>d. count_of d = c) (sort_by_count (coerce_counts rows)) =
         filter (\<lambda>d. count_of d = c) (coerce_counts rows)"
proof -
  let ?k = "\<lambda>d. desc_key (count_of d)"
  have nf: "nan_free (coerce_counts rows)" using assms by simp
  show ?thesis
  proof (cases "c = JNaN")
    case True
    then show ?thesis using nf
      by (auto simp: nan_free_def filter_empty_conv sort_by_count_def)
  next
    case False
    have eq: "\<And>ys. set ys \<subseteq> set (coerce_counts rows) \<Longrightarrow>
        filter (\<lambda>d. count_of d = c) ys = filter (\<lambda>d. ?k d = desc_key c) ys"
      using nf False by (intro filter_cong) (auto simp: nan_free_def desc_key_inj)
    have "filter (\<lambda>d. ?k d = desc_key c) (sort_key ?k (coerce_counts rows)) =
          filter (\<lambda>d. ?k d = desc_key c) (coerce_counts rows)"
      by (rule sort_key_stable)
    then show ?thesis using nf
      by (simp add: sort_by_count_sort_key eq)
  qed
qed

theorem sort_by_count_stable_witness:
  "nan_free scenario_rows \<and>
   filter (\<lambda>d. count_of d = JNum 80) (sort_by_count (coerce_counts scenario_rows)) =
   filter (\<lambda>d. count_of d = JNum 80) (coerce_counts scenario_rows)"
proof -
  have h: "nan_free scenario_rows" by code_simp
  show ?thesis using h sort_by_count_stable [OF h, of "JNum 80"] by simp
qed

text \<open>C5: refinement: the kept rows are the first ten of any stable descending sort of the
  coerced rows (the specification's selectTop), whichever engine produces it.\<close>
theorem top_reasons_refines_stable_sort:
  assumes "nan_free rows"
    and "stable_sorted_perm (\<lambda>d. desc_key (count_of d)) (coerce_counts rows) ys"
  shows "prepare_data rows = take 10 ys"
  using assms by (simp add: prepare_data_sort_key stable_sorted_perm_iff_sort_key)

theorem top_reasons_refines_stable_sort_witness:
  "nan_free scenario_rows \<and>
   stable_sorted_perm (\<lambda>d. desc_key (count_of d)) (coerce_counts scenario_rows)
     (coerce_counts [scenario_rows ! 1, scenario_rows ! 2, scenario_rows ! 0]) \<and>
   prepare_data scenario_rows = take 10 (coerce_counts [scenario_rows ! 1, scenario_rows ! 2, scenario_rows ! 0])"
proof -
  have h1: "nan_free scenario_rows" by code_simp
  have h2: "stable_sorted_perm (\<lambda>d. desc_key (count_of d)) (coerce_counts scenario_rows)
     (coerce_counts [scenario_rows ! 1, scenario_rows ! 2, scenario_rows ! 0])"
    by code_simp
  show ?thesis using h1 h2 top_reasons_refines_stable_sort [OF h1 h2] by blast
qed




text \<open>C8: the x scale's domain is \<open>[0, m]\<close> with \<open>m\<close> the largest count among the rows it
  is built from (the kept rows).\<close>
theorem x_domain_is_max_count:
  assumes "rows \<noteq> []" "\<forall>d\<in>set rows. \<exists>n. get_field d ''Count'' = JNumber n \<and> n \<noteq> JNaN"
  shows "\<exists>d\<in>set rows. lin_domain (x_scale rows) = (JNum 0, count_of d) \<and>
           (\<forall>d'\<in>set rows. \<not> js_num_less (count_of d) (count_of d'))"
proof -
  obtain d where d: "d \<in> set rows" "d3_max (\<lambda>d. get_field d ''Count'') rows = get_field d ''Count''"
    and mx: "\<forall>y\<in>set rows. desc_key (count_of d) \<le> desc_key (count_of y)"
    using d3_max_is_max [OF assms] by (auto simp: count_of_def)
  have "lin_domain (x_scale rows) = (JNum 0, count_of d)"
    using d by (simp add: x_scale_def linear_set_range_def linear_set_domain_def
        d3_scale_linear_def count_of_def)
  moreover have "\<forall>d'\<in>set rows. \<not> js_num_less (count_of d) (count_of d')"
  proof
    fix d' assume d': "d' \<in> set rows"
    have "count_of d \<noteq> JNaN" "count_of d' \<noteq> JNaN"
      using assms(2) d(1) d' by (auto simp: count_of_def)
    then show "\<not> js_num_less (count_of d) (count_of d')"
      using mx d' by (simp add: js_num_less_desc_key not_less)
  qed
  ultimately show ?thesis using d(1) by blast
qed

theorem x_domain_is_max_count_witness:
  "map (\<lambda>d. get_field d ''Count'') (prepare_data scenario_rows) =
     [JNumber (JNum 120), JNumber (JNum 80), JNumber (JNum 50)] \<and>
   lin_domain (x_scale (prepare_data scenario_rows)) = (JNum 0, JNum 120)"
proof -
  have p: "prepare_data scenario_rows = coerce_counts [scenario_rows ! 1, scenario_rows ! 2, scenario_rows ! 0]"
    by code_simp
  have h1: "prepare_data scenario_rows \<noteq> []" by (simp add: p)
  have c: "map count_of (prepare_data scenario_rows) = [JNum 120, JNum 80, JNum 50]"
    by code_simp
  have g: "\<forall>d\<in>set (prepare_data scenario_rows). get_field d ''Count'' = JNumber (count_of d)"
    by (simp add: p)
  have h2: "\<forall>d\<in>set (prepare_data scenario_rows). \<exists>n. get_field d ''Count'' = JNumber n \<and> n \<noteq> JNaN"
  proof
    fix d assume d: "d \<in> set (prepare_data scenario_rows)"
    then have "count_of d \<in> set [JNum 120, JNum 80, JNum 50]"
      using c by (metis image_eqI list.set_map)
    then show "\<exists>n. get_field d ''Count'' = JNumber n \<and> n \<noteq> JNaN"
      using g d by auto
  qed
  obtain d where "d \<in> set (prepare_data scenario_rows)"
      "lin_domain (x_scale (prepare_data scenario_rows)) = (JNum 0, count_of d)"
    using x_domain_is_max_count [OF h1 h2] by blast
  moreover have "lin_domain (x_scale (prepare_data scenario_rows)) = (JNum 0, JNum 120)"
    by code_simp
  moreover have "map (\<lambda>d. get_field d ''Count'') (prepare_data scenario_rows) =
     [JNumber (JNum 120), JNumber (JNum 80), JNumber (JNum 50)]"
    using c g by (simp add: p)
  ultimately show ?thesis by blast
qed

section \<open>Scales and bars (lines 30-95)\<close>

text \<open>C9: band completeness: when the kept rows have distinct reasons, the y scale has exactly
  one band per row, in the rows' order.\<close>
theorem y_domain_distinct_reasons:
  "distinct (map (\<lambda>d. get_field d ''reason'') rows) \<Longrightarrow>
   band_domain (y_scale rows) = map (\<lambda>d. get_field d ''reason'') rows"
  by (simp add: band_domain_y_scale intern_domain_from_distinct)

theorem y_domain_distinct_reasons_witness:
  "band_domain (y_scale (prepare_data scenario_rows)) =
     [JStr ''Noise'', JStr ''Trash'', JStr ''Pothole'']"
proof -
  have h: "distinct (map (\<lambda>d. get_field d ''reason'') (prepare_data scenario_rows))" by code_simp
  have "map (\<lambda>d. get_field d ''reason'') (prepare_data scenario_rows) =
     [JStr ''Noise'', JStr ''Trash'', JStr ''Pothole'']" by code_simp
  then show ?thesis using y_domain_distinct_reasons [OF h] by simp
qed

text \<open>C10: with a repeated reason the band scale interns it: there are fewer bands than rows
  and two bars are drawn at the same y, one over the other.\<close>
theorem duplicate_reasons_share_band:
  assumes "\<not> distinct (map (\<lambda>d. get_field d ''reason'') rows)"
  shows "length (band_domain (y_scale rows)) < length rows \<and>
    (\<exists>i<length rows. \<exists>j<length rows. i \<noteq> j \<and>
       node_attr (bar_node (x_scale rows) (y_scale rows) (rows ! i)) ''y'' =
       node_attr (bar_node (x_scale rows) (y_scale rows) (rows ! j)) ''y'')"
proof
  let ?rs = "map (\<lambda>d. get_field d ''reason'') rows"
  have "card (set ?rs) \<noteq> length ?rs" using assms card_distinct by blast
  then have "card (set ?rs) < length ?rs" using card_length le_neq_implies_less by blast
  then show "length (band_domain (y_scale rows)) < length rows"
    by (simp add: band_domain_y_scale length_intern_domain)
  obtain i j where ij: "i < length ?rs" "j < length ?rs" "i \<noteq> j" "?rs ! i = ?rs ! j"
    using assms by (auto simp: distinct_conv_nth)
  then have "i < length rows \<and> j < length rows \<and> i \<noteq> j \<and>
       node_attr (bar_node (x_scale rows) (y_scale rows) (rows ! i)) ''y'' =
       node_attr (bar_node (x_scale rows) (y_scale rows) (rows ! j)) ''y''"
    by (simp add: bar_node_attr)
  then show "\<exists>i<length rows. \<exists>j<length rows. i \<noteq> j \<and>
       node_attr (bar_node (x_scale rows) (y_scale rows) (rows ! i)) ''y'' =
       node_attr (bar_node (x_scale rows) (y_scale rows) (rows ! j)) ''y''"
    by blast
qed

theorem duplicate_reasons_share_band_witness:
  "length (band_domain (y_scale dup_rows)) < length dup_rows"
proof -
  have h: "\<not> distinct (map (\<lambda>d. get_field d ''reason'') dup_rows)" by code_simp
  show ?thesis using duplicate_reasons_share_band [OF h] by blast
qed


text \<open>C11: when no row has a \<open>reason\<close> property (a CSV header spelt \<open>Reason\<close>), the y domain
  is the single value undefined and every bar is drawn in the same band.\<close>
theorem missing_reason_column_one_band:
  assumes "rows \<noteq> []" "\<forall>d\<in>set rows. get_field d ''reason'' = JUndefined"
  shows "band_domain (y_scale rows) = [JUndefined] \<and>
    (\<forall>d\<in>set rows. node_attr (bar_node (x_scale rows) (y_scale rows) d) ''y'' = num (280 / 11))"
proof -
  have b: "band_domain (y_scale rows) = [JUndefined]" using assms by (rule y_scale_single_band)
  have "band_apply (y_scale rows) JUndefined = num (280 / 11)"
    using b by (simp add: band_apply_def band_values_def band_start_def band_step_def
        y_scale_def band_set_padding_def band_set_range_def band_set_domain_def d3_scale_band_def
        height_def margin_def num_def)
  then show ?thesis using b assms(2) by (simp add: bar_node_attr)
qed

theorem missing_reason_column_one_band_witness:
  "band_domain (y_scale (prepare_data upper_rows)) = [JUndefined] \<and>
   map (\<lambda>d. node_attr (bar_node (x_scale (prepare_data upper_rows)) (y_scale (prepare_data upper_rows)) d) ''y'')
     (prepare_data upper_rows) = [num (280 / 11), num (280 / 11)]"
proof -
  have h1: "prepare_data upper_rows \<noteq> []" by code_simp
  have h2: "\<forall>d\<in>set (prepare_data upper_rows). get_field d ''reason'' = JUndefined" by code_simp
  have l: "length (prepare_data upper_rows) = 2" by code_simp
  note c = missing_reason_column_one_band [OF h1 h2]
  have "map (\<lambda>d. node_attr (bar_node (x_scale (prepare_data upper_rows)) (y_scale (prepare_data upper_rows)) d) ''y'')
     (prepare_data upper_rows) = replicate 2 (num (280 / 11))"
    using c l by (simp add: map_replicate_const cong: map_cong)
  then show ?thesis using c by (simp add: numeral_2_eq_2)
qed



text \<open>C12: a bar's width is \<open>width * count / max\<close>: proportional to its count, the largest
  count filling the plot width.\<close>
theorem bar_width_proportional:
  assumes "lin_domain (x_scale rows) = (JNum 0, JNum m)" "0 < m" "m < max_double_bound"
    and "get_field d ''Count'' = JNumber (JNum c)" "0 \<le> c" "c \<le> m"
  shows "node_attr (bar_node (x_scale rows) y d) ''width'' = num (550 * c / m)"
proof -
  have "(550::rat) < max_double_bound" using max_double_bound_big by simp
  then show ?thesis using assms lin_range_x_scale [of rows]
    by (simp add: bar_node_attr linear_apply_proportional num_def)
qed

theorem bar_width_proportional_witness:
  "node_attr (bar_node (x_scale (prepare_data scenario_rows)) (y_scale (prepare_data scenario_rows))
     (prepare_data scenario_rows ! 1)) ''width'' = num (1100 / 3)"
proof -
  have h1: "lin_domain (x_scale (prepare_data scenario_rows)) = (JNum 0, JNum 120)" by code_simp
  have h3: "(120::rat) < max_double_bound" using max_double_bound_big by simp
  have h4: "get_field (prepare_data scenario_rows ! 1) ''Count'' = JNumber (JNum 80)" by code_simp
  show ?thesis
    using bar_width_proportional [OF h1 _ h3 h4, of "y_scale (prepare_data scenario_rows)"] by simp
qed







text \<open>C15: when every kept count is 0 the x domain is \<open>[0, 0]\<close>, d3 maps every value to the
  middle of the range, and every bar is drawn 275 wide, half the plot.\<close>
theorem zero_counts_half_width:
  assumes "rows \<noteq> []" "\<forall>d\<in>set rows. get_field d ''Count'' = JNumber (JNum 0)"
  shows "\<forall>d\<in>set rows. node_attr (bar_node (x_scale rows) y d) ''width'' = num 275"
proof -
  have nums: "\<forall>d\<in>set rows. \<exists>n. get_field d ''Count'' = JNumber n \<and> n \<noteq> JNaN"
    using assms(2) by simp
  obtain z where z: "z \<in> set rows" "d3_max (\<lambda>d. get_field d ''Count'') rows = get_field z ''Count''"
    using d3_max_is_max [OF assms(1) nums] by (elim bexE conjE) simp
  have m: "d3_max (\<lambda>d. get_field d ''Count'') rows = JNumber (JNum 0)"
    using z assms(2) by simp
  have d: "lin_domain (x_scale rows) = (JNum 0, JNum 0)"
    using m by (simp add: x_scale_def linear_set_range_def linear_set_domain_def)
  have "(550::rat) < max_double_bound" using max_double_bound_big by simp
  then have w: "linear_apply (x_scale rows) (JNumber (JNum 0)) = num 275"
    using linear_apply_degenerate [OF d lin_range_x_scale, of 0] max_double_bound_pos
    by (simp add: num_def)
  show ?thesis
  proof
    fix d assume "d \<in> set rows"
    then have "get_field d ''Count'' = JNumber (JNum 0)" using assms(2) by blast
    then show "node_attr (bar_node (x_scale rows) y d) ''width'' = num 275"
      using w by (simp only: bar_node_attr)
  qed
qed

theorem zero_counts_half_width_witness:
  "map (\<lambda>d. node_attr (bar_node (x_scale (prepare_data zero_rows)) (y_scale (prepare_data zero_rows)) d) ''width'')
     (prepare_data zero_rows) = [num 275, num 275]"
proof -
  have h1: "prepare_data zero_rows \<noteq> []" by code_simp
  have h2: "\<forall>d\<in>set (prepare_data zero_rows). get_field d ''Count'' = JNumber (JNum 0)" by code_simp
  have l: "length (prepare_data zero_rows) = 2" by code_simp
  have "map (\<lambda>d. node_attr (bar_node (x_scale (prepare_data zero_rows)) (y_scale (prepare_data zero_rows)) d) ''width'')
     (prepare_data zero_rows) = replicate 2 (num 275)"
    using zero_counts_half_width [OF h1 h2] l by (simp add: map_replicate_const cong: map_cong)
  then show ?thesis by (simp add: numeral_2_eq_2)
qed



text \<open>C16: a row whose count is not numeric gets a bar and a label with no width and no x
  attribute (the scale answers undefined), and the label reads NaN.\<close>
theorem nan_count_bar_unsized:
  assumes "count_of d = JNaN"
  shows "node_attr (bar_node x y (coerce_row d)) ''width'' = JUndefined \<and>
    node_attr (label_node x y (coerce_row d)) ''x'' = JUndefined \<and>
    node_children (label_node x y (coerce_row d)) = [TextNode (JNumber JNaN)] \<and>
    js_number_to_string JNaN = Some ''NaN''"
  using assms by (simp add: bar_node_attr label_node_attr linear_apply_def)

theorem nan_count_bar_unsized_witness:
  "node_attr (bar_node (x_scale (prepare_data nan_rows)) (y_scale (prepare_data nan_rows)) (coerce_row (nan_rows ! 1))) ''width'' = JUndefined"
proof -
  have h: "count_of (nan_rows ! 1) = JNaN" by code_simp
  show ?thesis using nan_count_bar_unsized [OF h] by blast
qed

section \<open>Coercion of the counts (line 5)\<close>

text \<open>C17: an empty or blank Count cell (d3-dsv fills a missing cell with the empty string)
  coerces to 0, not to NaN: the row is drawn as a zero count.\<close>
theorem blank_count_cell_is_zero:
  assumes "list_all is_str_ws s" "get_field d ''Count'' = JStr s"
  shows "get_field (coerce_row d) ''Count'' = JNumber (JNum 0)"
  using assms by (simp add: count_of_def string_to_number_def js_trim_all_ws)

theorem blank_count_cell_is_zero_witness:
  "get_field (coerce_row (zero_rows ! 1)) ''Count'' = JNumber (JNum 0)"
proof -
  have h1: "list_all is_str_ws ''''" by simp
  have h2: "get_field (zero_rows ! 1) ''Count'' = JStr ''''" by code_simp
  show ?thesis using blank_count_cell_is_zero [OF h1 h2] .
qed

text \<open>C18: a Count cell of decimal digits coerces to its decimal value; leading zeros do not
  make it octal.\<close>
theorem count_cell_digits:
  assumes "ds \<noteq> []" "list_all (is_digit_of 10) ds" "get_field d ''Count'' = JStr ds"
    and "of_nat (digits_value 10 ds) < max_double_bound"
  shows "get_field (coerce_row d) ''Count'' = JNumber (JNum (of_nat (digits_value 10 ds)))"
  using assms by (simp add: count_of_def string_to_number_digits)

theorem count_cell_digits_witness:
  "get_field (coerce_row [(''reason'', JStr ''Noise''), (''Count'', JStr ''0120'')]) ''Count'' =
   JNumber (JNum 120)"
proof -
  have h1: "''0120'' \<noteq> []" by simp
  have h2: "list_all (is_digit_of 10) ''0120''" by code_simp
  have h3: "get_field [(''reason'', JStr ''Noise''), (''Count'', JStr ''0120'')] ''Count'' = JStr ''0120''"
    by (simp add: get_field_def)
  have v: "digits_value 10 ''0120'' = 120" by code_simp
  have h4: "of_nat (digits_value 10 ''0120'') < max_double_bound"
    using max_double_bound_big by (simp add: v)
  show ?thesis using count_cell_digits [OF h1 h2 h3 h4] v by simp
qed





section \<open>Layout (lines 17-37)\<close>

text \<open>C21: bounds: every band of the y scale lies within \<open>[0, height]\<close> and consecutive bands
  do not overlap (the padding separates them).\<close>
theorem band_layout_bounds:
  assumes "0 < length (band_domain (y_scale rows))"
  shows "\<forall>i<length (band_domain (y_scale rows)).
    0 \<le> band_values (y_scale rows) ! i \<and>
    band_values (y_scale rows) ! i + bandwidth (y_scale rows) \<le> 280 \<and>
    (Suc i < length (band_domain (y_scale rows)) \<longrightarrow>
       band_values (y_scale rows) ! i + bandwidth (y_scale rows) < band_values (y_scale rows) ! Suc i)"
proof -
  let ?Y = "y_scale rows"
  let ?n = "length (band_domain ?Y)"
  let ?N = "of_nat ?n :: rat"
  let ?s = "band_step ?Y"
  have N1: "1 \<le> ?N" using assms by (simp add: Suc_le_eq)
  have st: "?s = 280 / (?N + 1 / 10)"
    using N1 by (simp add: band_step_def y_scale_params max_def)
  have pos: "0 < ?s" using st N1 by simp
  have d: "0 < ?N + 1 / 10" using N1 by simp
  have sp: "?s * (?N + 1 / 10) = 280" using d unfolding st by (simp add: field_simps)
  have "band_start ?Y = (280 - ?s * (?N - 1 / 10)) / 2"
    by (simp add: band_start_def y_scale_params)
  also have "\<dots> = ?s / 10"
    by (subst sp [symmetric]) (simp add: algebra_simps)
  finally have s0: "band_start ?Y = ?s / 10" .
  have v: "band_values ?Y ! i = ?s / 10 + ?s * of_nat i" if "i < ?n" for i
    using that by (simp add: band_values_def y_scale_params s0)
  have bw: "bandwidth ?Y = ?s * (9 / 10)"
    by (simp add: bandwidth_def y_scale_params)
  show ?thesis
  proof (intro allI impI conjI)
    fix i assume i: "i < ?n"
    show "0 \<le> band_values ?Y ! i" using v [OF i] pos by simp
    have "band_values ?Y ! i + bandwidth ?Y = ?s * (of_nat i + 1)"
      using v [OF i] bw by (simp add: algebra_simps)
    also have "\<dots> \<le> ?s * ?N"
      using i pos by (intro mult_left_mono) auto
    also have "\<dots> \<le> 280" using sp pos by (simp add: algebra_simps)
    finally show "band_values ?Y ! i + bandwidth ?Y \<le> 280" .
    assume "Suc i < ?n"
    then show "band_values ?Y ! i + bandwidth ?Y < band_values ?Y ! Suc i"
      using v [OF i] v [of "Suc i"] bw pos by (simp add: algebra_simps)
  qed
qed

theorem band_layout_bounds_witness:
  "band_values (y_scale (prepare_data scenario_rows)) ! 2 + bandwidth (y_scale (prepare_data scenario_rows)) \<le> 280"
proof -
  have h: "0 < length (band_domain (y_scale (prepare_data scenario_rows)))" by code_simp
  have l: "2 < length (band_domain (y_scale (prepare_data scenario_rows)))" by code_simp
  show ?thesis using band_layout_bounds [OF h] l by blast
qed


text \<open>C23: coercion keeps each row's columns and labels and leaves a number in every Count.\<close>
theorem coerce_keeps_columns:
  assumes "csv_rows_wf cols rows" "''Count'' \<in> set cols"
  shows "map (map fst) (coerce_counts rows) = map (map fst) rows \<and>
    map (\<lambda>d. get_field d ''reason'') (coerce_counts rows) = map (\<lambda>d. get_field d ''reason'') rows \<and>
    list_all (\<lambda>d. get_field d ''Count'' = JNumber (count_of d)) (coerce_counts rows)"
proof -
  have "map fst (coerce_row d) = map fst d" if "d \<in> set rows" for d
    using that assms map_fst_alist_set [of "''Count''" d]
    by (simp add: csv_rows_wf_def coerce_row_def set_field_def)
  then show ?thesis by (simp add: coerce_counts_map list_all_iff)
qed

theorem coerce_keeps_columns_witness:
  "map (map fst) (coerce_counts scenario_rows) = map (map fst) scenario_rows"
proof -
  have h1: "csv_rows_wf [''reason'', ''Count''] scenario_rows" by code_simp
  have h2: "''Count'' \<in> set [''reason'', ''Count'']" by simp
  show ?thesis using coerce_keeps_columns [OF h1 h2] by blast
qed

section \<open>The page (lines 1-2, 22)\<close>




section \<open>Loading the CSV file (lines 1-2)\<close>

text \<open>C26: round trip of the CSV reader: for the text that d3's \<open>csvFormatRows\<close> writes
  from a header of distinct column names and rows of as many cells, reading each column of
  each loaded row object, as the script reads \<open>d.Count\<close> and \<open>d.reason\<close>, gives back exactly
  the cells written, quotes, commas and line breaks inside cells included (unless the last
  line is a single empty cell, which the reader drops).\<close>

theorem csv_cells_roundtrip:
  assumes "distinct cols" "cols \<noteq> []" "\<forall>r\<in>set rs. length r = length cols" "last (cols # rs) \<noteq> [[]]"
  shows "map (\<lambda>d. map (get_field d) cols) (csv_parse (csv_format_rows (cols # rs))) = map (map JStr) rs"
proof -
  have "map (get_field (zip cols (map JStr r))) cols = map JStr r" if "length r = length cols" for r
    using map_alist_get_zip [of cols "map JStr r" JUndefined] assms(1) that
    unfolding get_field_def [abs_def] by simp
  then show ?thesis using assms by (simp add: csv_parse_format)
qed

theorem csv_cells_roundtrip_witness:
  "map (\<lambda>d. map (get_field d) [''reason'', ''Count''])
     (csv_parse (csv_format_rows
        [[''reason'', ''Count''], [''Street Lights, broken'', ''5''], [''Say \"hi\"'', '' 7'']])) =
   [[JStr ''Street Lights, broken'', JStr ''5''], [JStr ''Say \"hi\"'', JStr '' 7'']]"
  using csv_cells_roundtrip [of "[''reason'', ''Count'']" "[[''Street Lights, broken'', ''5''], [''Say \"hi\"'', '' 7'']]"]
  by simp

text \<open>C27: the whole script on a fetched file: when the file is a well-formed CSV with the
  header \<open>reason,Count\<close> and two cells per row, the page gains the chart of exactly those
  rows, each an object \<open>{reason, Count}\<close> of strings, and no error is raised.\<close>

theorem run_page_draws_file:
  assumes "chart_elem p = Some cs" "\<forall>r\<in>set rs. length r = 2"
  shows "run_page (Inr (csv_format_rows ([''reason'', ''Count''] # rs))) p =
           (p\<lparr>chart_elem := Some (cs @ [on_data (map (\<lambda>r. zip [''reason'', ''Count''] (map JStr r)) rs)])\<rparr>,
            None)"
proof -
  have "last ([''reason'', ''Count''] # rs) \<noteq> [[]]"
    using assms(2) by (cases rs rule: rev_cases) auto
  then have "csv_parse (csv_format_rows ([''reason'', ''Count''] # rs)) =
             map (\<lambda>r. zip [''reason'', ''Count''] (map JStr r)) rs"
    using assms(2) by (intro csv_parse_format) simp_all
  then show ?thesis using assms(1) by (simp add: run_page_def run_script_def d3_csv_def)
qed

theorem run_page_draws_file_witness:
  "run_page (Inr (csv_format_rows [[''reason'', ''Count''], [''Noise'', ''120''], [''Trash'', ''80'']]))
     \<lparr>chart_elem = Some []\<rparr> =
   (\<lparr>chart_elem = Some [on_data [[(''reason'', JStr ''Noise''), (''Count'', JStr ''120'')],
                                 [(''reason'', JStr ''Trash''), (''Count'', JStr ''80'')]]]\<rparr>, None)"
  using run_page_draws_file [of "\<lparr>chart_elem = Some []\<rparr>" "[]" "[[''Noise'', ''120''], [''Trash'', ''80'']]"]
  by simp

text \<open>C28: a blank line at the end of the file (a second line feed) is not dropped: it
  becomes one more row whose every cell is the empty string, and whose Count the coercion
  turns into 0, so the chart gets a row with an empty reason and a zero count.\<close>

theorem csv_trailing_blank_line:
  assumes "distinct cols" "cols \<noteq> []" "\<forall>r\<in>set rs. length r = length cols" "''Count'' \<in> set cols"
  shows "csv_parse (csv_format_rows (cols # rs) @ [LF, LF]) =
           map (\<lambda>r. zip cols (map JStr r)) rs @ [map (\<lambda>c. (c, JStr [])) cols]
         \<and> get_field (coerce_row (map (\<lambda>c. (c, JStr [])) cols)) ''Count'' = JNumber (JNum 0)"
proof
  show "csv_parse (csv_format_rows (cols # rs) @ [LF, LF]) =
          map (\<lambda>r. zip cols (map JStr r)) rs @ [map (\<lambda>c. (c, JStr [])) cols]"
    using assms(1-3) by (rule csv_parse_trailing_blank)
  show "get_field (coerce_row (map (\<lambda>c. (c, JStr [])) cols)) ''Count'' = JNumber (JNum 0)"
  proof -
    have "get_field (map (\<lambda>c. (c, JStr [])) cols) ''Count'' = JStr []"
      using assms(4) by (simp add: get_field_def alist_get_map_const)
    then show ?thesis by (simp add: count_of_def string_to_number_def js_trim_all_ws)
  qed
qed

theorem csv_trailing_blank_line_witness:
  "csv_parse (csv_format_rows [[''Reason'', ''Count''], [''Noise'', ''120'']] @ [LF, LF]) =
     [[(''Reason'', JStr ''Noise''), (''Count'', JStr ''120'')], [(''Reason'', JStr []), (''Count'', JStr [])]]
   \<and> get_field (coerce_row [(''Reason'', JStr []), (''Count'', JStr [])]) ''Count'' = JNumber (JNum 0)"
  using csv_trailing_blank_line [of "[''Reason'', ''Count'']" "[[''Noise'', ''120'']]"] by simp

text \<open>C29: type of the rows the callback works on: whatever the text, when its header
  names distinct columns, among them \<open>Count\<close>, every row object the reader delivers has
  exactly those columns, in header order, each holding a string; after line 5 each still
  has those columns and holds a number in \<open>Count\<close>, however many cells its line had.\<close>

theorem loaded_rows_typed:
  assumes "dsv_rows (dsv_tokens text) = cols # rows" "distinct cols" "''Count'' \<in> set cols"
  shows "csv_rows_wf cols (csv_parse text) \<and>
         list_all (\<lambda>d. map fst d = cols \<and> get_field d ''Count'' = JNumber (count_of d))
           (coerce_counts (csv_parse text))"
proof
  show wf: "csv_rows_wf cols (csv_parse text)" using assms(1,2) by (rule csv_parse_wf)
  have "map fst (coerce_row d) = cols" if "d \<in> set (csv_parse text)" for d
    using wf that assms(3) coerce_row_columns [of d] by (simp add: csv_rows_wf_def)
  then show "list_all (\<lambda>d. map fst d = cols \<and> get_field d ''Count'' = JNumber (count_of d))
               (coerce_counts (csv_parse text))"
    by (simp add: coerce_counts_map list_all_iff)
qed

theorem loaded_rows_typed_witness:
  "map (map fst) (coerce_counts (csv_parse ''reason,Count\<newline>\"a\"\"b\",1,extra\<newline>c'')) =
     [[''reason'', ''Count''], [''reason'', ''Count'']]"
proof -
  have h: "dsv_rows (dsv_tokens ''reason,Count\<newline>\"a\"\"b\",1,extra\<newline>c'') =
           [[''reason'', ''Count''], [''a\"b'', ''1'', ''extra''], [''c'']]"
    by code_simp
  have p: "csv_parse ''reason,Count\<newline>\"a\"\"b\",1,extra\<newline>c'' =
           [[(''reason'', JStr ''a\"b''), (''Count'', JStr ''1'')], [(''reason'', JStr ''c''), (''Count'', JStr [])]]"
    by code_simp
  have "list_all (\<lambda>d. map fst d = [''reason'', ''Count''] \<and> get_field d ''Count'' = JNumber (count_of d))
          (coerce_counts (csv_parse ''reason,Count\<newline>\"a\"\"b\",1,extra\<newline>c''))"
    using loaded_rows_typed [OF h] by simp
  then show ?thesis unfolding p by simp
qed


end
